theory Spec2Isabelle
  imports Main
begin

section \<open>Data model\<close>

text \<open>
  The two tables the session core reads and writes (migration \<open>CreateTable "User"\<close>,
  \<open>CreateTable "RefreshToken"\<close>, and the later \<open>AlterTable "User"\<close>). Nullable
  columns are options. \<open>inviteCode\<close> is the column the later migration adds: \<open>NOT NULL\<close>,
  unique, and without a default once the migration has run. The timestamp columns, which
  the database fills by \<open>DEFAULT CURRENT_TIMESTAMP\<close> and no operation of the core reads
  (\<open>createdAt\<close>, \<open>updatedAt\<close>, \<open>lastActiveAt\<close>), are left out. Timestamps are
  milliseconds since the epoch.
\<close>

record user =
  user_id :: string
  email :: "string option"
  passwordHash :: "string option"
  displayName :: "string option"
  inviteCode :: string
  isGuest :: bool

record refresh_token =
  token_id :: string
  tokenHash :: string
  userId :: string
  expiresAt :: int

record db =
  user_table :: "user list"
  refreshToken_table :: "refresh_token list"

text \<open>\<open>JwtPayload\<close> of auth.service.ts and the pair returned by \<open>generateTokens\<close>.\<close>

record jwt_payload =
  sub :: string
  claim_isGuest :: bool

record token_pair =
  accessToken :: string
  refreshToken :: string

text \<open>The body of a register request (\<open>RegisterDto\<close> as the controller passes it on).\<close>

record register_data =
  reg_email :: string
  reg_password :: string
  reg_displayName :: "string option"

text \<open>
  Every exception the code can raise is a value. The three Nest exceptions carry their
  message; \<open>PrismaError\<close> is a write the store rejects (its code: P2002 unique
  constraint, P2003 foreign key, P2011 null constraint, P2025 record not found);
  \<open>TypeError\<close> is a property read on \<open>null\<close>.
\<close>

datatype error =
    UnauthorizedException string
  | ConflictException string
  | BadRequestException string
  | PrismaError string
  | TypeError

text \<open>
  The library functions the code calls (crypto, bcrypt, jsonwebtoken, the configuration
  service, \<open>parseInt\<close>) are parameters of the model: nothing is assumed about them.
  \<open>jwt_verify\<close> returns \<open>None\<close> where the library throws (bad signature, malformed
  or expired token); \<open>parseInt10\<close> returns \<open>None\<close> where \<open>Number.isFinite\<close> of
  the parsed value is false. \<open>jwt_sign\<close> is taken to return a token: the signing secret
  is configured, as the constructor of \<open>JwtStrategy\<close> demands at start-up.
\<close>

record lib =
  sha256_hex :: "string \<Rightarrow> string"
  bcrypt_hash :: "string \<Rightarrow> nat \<Rightarrow> string \<Rightarrow> string"
  bcrypt_compare :: "string \<Rightarrow> string \<Rightarrow> bool"
  jwt_sign :: "jwt_payload \<Rightarrow> string option \<Rightarrow> int \<Rightarrow> int \<Rightarrow> string"
  jwt_verify :: "string \<Rightarrow> string option \<Rightarrow> int \<Rightarrow> jwt_payload option"
  config_get :: "string \<Rightarrow> string option"
  parseInt10 :: "string \<Rightarrow> int option"

text \<open>
  What one request draws from outside the program: the clock (\<open>new Date()\<close> in
  \<open>refreshTokens\<close>, \<open>Date.now()\<close> in \<open>generateTokens\<close>), the identifiers the
  database generates for a new row (\<open>@default(uuid())\<close>), the bytes of
  \<open>randomBytes(40).toString('hex')\<close> and the salt bcrypt draws.
\<close>

record env =
  new_date :: int
  date_now :: int
  uuid_user :: string
  uuid_token :: string
  randomBytes_hex :: string
  salt :: string

section \<open>The persistence layer\<close>

text \<open>
  The Prisma calls the services make, with the constraints of the schema written out:
  primary keys, the unique indexes on \<open>User.email\<close>, \<open>User.inviteCode\<close> and
  \<open>RefreshToken.tokenHash\<close>, the \<open>NOT NULL\<close> of \<open>User.inviteCode\<close> and the foreign
  key \<open>RefreshToken.userId\<close>.
\<close>

definition user_findUnique_id :: "db \<Rightarrow> string \<Rightarrow> user option" where
  "user_findUnique_id d i = find (\<lambda>u. user_id u = i) (user_table d)"

definition user_findUnique_email :: "db \<Rightarrow> string \<Rightarrow> user option" where
  "user_findUnique_email d e = find (\<lambda>u. email u = Some e) (user_table d)"

text \<open>
  The \<open>data\<close> of a \<open>prisma.user.create\<close>: every column the caller may supply, absent
  where the caller leaves it out. The identifier is generated (\<open>@default(uuid())\<close>).
\<close>

record user_create_data =
  data_email :: "string option"
  data_passwordHash :: "string option"
  data_displayName :: "string option"
  data_inviteCode :: "string option"
  data_isGuest :: bool

text \<open>
  \<open>prisma.user.create\<close>. A row needs an invite code: the column is \<open>NOT NULL\<close> and
  has no default, so a create whose data leaves it out is refused and writes nothing.
\<close>

definition user_create :: "db \<Rightarrow> string \<Rightarrow> user_create_data \<Rightarrow> (error + user) \<times> db" where
  "user_create d new_id dat =
     (case data_inviteCode dat of
        None \<Rightarrow> (Inl (PrismaError ''P2011''), d)
      | Some code \<Rightarrow>
          if find (\<lambda>v. user_id v = new_id) (user_table d) \<noteq> None
            then (Inl (PrismaError ''P2002''), d)
          else if data_email dat \<noteq> None \<and>
                  find (\<lambda>v. email v = data_email dat) (user_table d) \<noteq> None
            then (Inl (PrismaError ''P2002''), d)
          else if find (\<lambda>v. inviteCode v = code) (user_table d) \<noteq> None
            then (Inl (PrismaError ''P2002''), d)
          else
            (let u = \<lparr>user_id = new_id, email = data_email dat,
                      passwordHash = data_passwordHash dat, displayName = data_displayName dat,
                      inviteCode = code, isGuest = data_isGuest dat\<rparr>
             in (Inr u, d\<lparr>user_table := user_table d @ [u]\<rparr>)))"

text \<open>
  \<open>prisma.user.update\<close> with the data of \<open>upgradeGuest\<close>; an \<open>undefined\<close> display
  name leaves the column as it is.
\<close>

definition user_update :: "db \<Rightarrow> string \<Rightarrow> string \<Rightarrow> string \<Rightarrow> string option \<Rightarrow> (error + user) \<times> db" where
  "user_update d i e ph dn =
     (case find (\<lambda>u. user_id u = i) (user_table d) of
        None \<Rightarrow> (Inl (PrismaError ''P2025''), d)
      | Some u \<Rightarrow>
          if find (\<lambda>v. email v = Some e \<and> user_id v \<noteq> i) (user_table d) \<noteq> None
            then (Inl (PrismaError ''P2002''), d)
          else
            (let u' = u\<lparr>email := Some e, passwordHash := Some ph,
                        displayName := (case dn of None \<Rightarrow> displayName u | Some n \<Rightarrow> Some n),
                        isGuest := False\<rparr>
             in (Inr u', d\<lparr>user_table := map (\<lambda>v. if user_id v = i then u' else v) (user_table d)\<rparr>)))"

definition refreshToken_findUnique :: "db \<Rightarrow> string \<Rightarrow> refresh_token option" where
  "refreshToken_findUnique d h = find (\<lambda>t. tokenHash t = h) (refreshToken_table d)"

definition refreshToken_create :: "db \<Rightarrow> refresh_token \<Rightarrow> error + db" where
  "refreshToken_create d t =
     (if find (\<lambda>s. token_id s = token_id t) (refreshToken_table d) \<noteq> None then Inl (PrismaError ''P2002'')
      else if find (\<lambda>s. tokenHash s = tokenHash t) (refreshToken_table d) \<noteq> None
        then Inl (PrismaError ''P2002'')
      else if find (\<lambda>u. user_id u = userId t) (user_table d) = None then Inl (PrismaError ''P2003'')
      else Inr (d\<lparr>refreshToken_table := refreshToken_table d @ [t]\<rparr>))"

definition refreshToken_delete :: "db \<Rightarrow> string \<Rightarrow> error + db" where
  "refreshToken_delete d i =
     (if find (\<lambda>t. token_id t = i) (refreshToken_table d) = None then Inl (PrismaError ''P2025'')
      else Inr (d\<lparr>refreshToken_table := filter (\<lambda>t. token_id t \<noteq> i) (refreshToken_table d)\<rparr>))"

definition refreshToken_deleteMany_userId :: "db \<Rightarrow> string \<Rightarrow> db" where
  "refreshToken_deleteMany_userId d i =
     d\<lparr>refreshToken_table := filter (\<lambda>t. userId t \<noteq> i) (refreshToken_table d)\<rparr>"

definition refreshToken_deleteMany_tokenHash :: "db \<Rightarrow> string \<Rightarrow> db" where
  "refreshToken_deleteMany_tokenHash d h =
     d\<lparr>refreshToken_table := filter (\<lambda>t. tokenHash t \<noteq> h) (refreshToken_table d)\<rparr>"

section \<open>UsersService (users.service.ts)\<close>

definition findById :: "db \<Rightarrow> string \<Rightarrow> user option" where
  "findById d i = user_findUnique_id d i"

definition findByEmail :: "db \<Rightarrow> string \<Rightarrow> user option" where
  "findByEmail d e = user_findUnique_email d e"

text \<open>
  \<open>createGuest\<close> passes \<open>data: { isGuest: true }\<close> and \<open>createRegistered\<close> passes
  email, hash, display name and \<open>isGuest: false\<close>: neither supplies an invite code
  (\<open>generateInviteCode\<close> of invite-code.util.ts is never called by users.service.ts).
\<close>

definition users_createGuest :: "env \<Rightarrow> db \<Rightarrow> (error + user) \<times> db" where
  "users_createGuest ev d =
     user_create d (uuid_user ev)
       \<lparr>data_email = None, data_passwordHash = None, data_displayName = None,
        data_inviteCode = None, data_isGuest = True\<rparr>"

definition upgradeGuest :: "db \<Rightarrow> string \<Rightarrow> string \<Rightarrow> string \<Rightarrow> string option \<Rightarrow> (error + user) \<times> db" where
  "upgradeGuest d uid e ph dn =
     (case user_findUnique_id d uid of
        None \<Rightarrow> (Inl (BadRequestException ''User is not a guest''), d)
      | Some u \<Rightarrow>
          if \<not> isGuest u then (Inl (BadRequestException ''User is not a guest''), d)
          else (case user_findUnique_email d e of
                  Some existing \<Rightarrow> (Inl (ConflictException ''Email already in use''), d)
                | None \<Rightarrow> user_update d uid e ph dn))"

definition createRegistered :: "env \<Rightarrow> db \<Rightarrow> string \<Rightarrow> string \<Rightarrow> string option \<Rightarrow> (error + user) \<times> db" where
  "createRegistered ev d e ph dn =
     (case user_findUnique_email d e of
        Some existing \<Rightarrow> (Inl (ConflictException ''Email already in use''), d)
      | None \<Rightarrow>
          user_create d (uuid_user ev)
            \<lparr>data_email = Some e, data_passwordHash = Some ph, data_displayName = dn,
             data_inviteCode = None, data_isGuest = False\<rparr>)"

section \<open>AuthService (auth.service.ts)\<close>

definition hashToken :: "lib \<Rightarrow> string \<Rightarrow> string" where
  "hashToken l token = sha256_hex l token"

definition getExpiresSec :: "lib \<Rightarrow> string \<Rightarrow> int \<Rightarrow> int" where
  "getExpiresSec l envKey defaultSec =
     (case config_get l envKey of
        None \<Rightarrow> defaultSec
      | Some raw \<Rightarrow>
          if raw = [] then defaultSec
          else (case parseInt10 l raw of None \<Rightarrow> defaultSec | Some parsed \<Rightarrow> parsed))"

definition generateTokens :: "lib \<Rightarrow> env \<Rightarrow> db \<Rightarrow> string \<Rightarrow> bool \<Rightarrow> (error + token_pair) \<times> db" where
  "generateTokens l ev d uid g =
     (let payload = \<lparr>sub = uid, claim_isGuest = g\<rparr>;
          accessExpiresSec = getExpiresSec l ''JWT_ACCESS_EXPIRES_IN'' 900;
          access = jwt_sign l payload (config_get l ''JWT_ACCESS_SECRET'') accessExpiresSec (date_now ev);
          refresh = randomBytes_hex ev;
          h = hashToken l refresh;
          refreshExpiresSec = getExpiresSec l ''JWT_REFRESH_EXPIRES_IN'' 604800;
          expires = date_now ev + refreshExpiresSec * 1000
      in case refreshToken_create d \<lparr>token_id = uuid_token ev, tokenHash = h, userId = uid,
                                      expiresAt = expires\<rparr> of
           Inl e \<Rightarrow> (Inl e, d)
         | Inr d' \<Rightarrow> (Inr \<lparr>accessToken = access, refreshToken = refresh\<rparr>, d'))"

definition createGuest :: "lib \<Rightarrow> env \<Rightarrow> db \<Rightarrow> (error + token_pair) \<times> db" where
  "createGuest l ev d =
     (case users_createGuest ev d of
        (Inl e, d1) \<Rightarrow> (Inl e, d1)
      | (Inr u, d1) \<Rightarrow> generateTokens l ev d1 (user_id u) True)"

text \<open>\<open>if (guestUserId)\<close> is false for \<open>undefined\<close> and for the empty string.\<close>

definition register :: "lib \<Rightarrow> env \<Rightarrow> db \<Rightarrow> register_data \<Rightarrow> string option \<Rightarrow> (error + token_pair) \<times> db" where
  "register l ev d dat guestUserId =
     (let ph = bcrypt_hash l (reg_password dat) 10 (salt ev);
          r = (case guestUserId of
                 Some g \<Rightarrow>
                   if g \<noteq> [] then upgradeGuest d g (reg_email dat) ph (reg_displayName dat)
                   else createRegistered ev d (reg_email dat) ph (reg_displayName dat)
               | None \<Rightarrow> createRegistered ev d (reg_email dat) ph (reg_displayName dat))
      in case r of
           (Inl e, d1) \<Rightarrow> (Inl e, d1)
         | (Inr u, d1) \<Rightarrow>
             generateTokens l ev (refreshToken_deleteMany_userId d1 (user_id u)) (user_id u) False)"

definition validateUser :: "lib \<Rightarrow> db \<Rightarrow> string \<Rightarrow> string \<Rightarrow> user option" where
  "validateUser l d e pw =
     (case findByEmail d e of
        None \<Rightarrow> None
      | Some u \<Rightarrow>
          (case passwordHash u of
             None \<Rightarrow> None
           | Some ph \<Rightarrow>
               if ph = [] then None
               else if bcrypt_compare l pw ph then Some u else None))"

definition login :: "lib \<Rightarrow> env \<Rightarrow> db \<Rightarrow> string \<Rightarrow> (error + token_pair) \<times> db" where
  "login l ev d uid =
     (case findById d uid of
        None \<Rightarrow> (Inl (UnauthorizedException ''Unauthorized''), d)
      | Some u \<Rightarrow> generateTokens l ev d (user_id u) (isGuest u))"

text \<open>
  \<open>include: { user: true }\<close> reads the owner with the record, before the delete;
  \<open>stored.user.id\<close> is evaluated after it.
\<close>

definition refreshTokens :: "lib \<Rightarrow> env \<Rightarrow> db \<Rightarrow> string \<Rightarrow> (error + token_pair) \<times> db" where
  "refreshTokens l ev d rt =
     (let h = hashToken l rt in
      case refreshToken_findUnique d h of
        None \<Rightarrow> (Inl (UnauthorizedException ''Invalid refresh token''), d)
      | Some stored \<Rightarrow>
          (let stored_user = user_findUnique_id d (userId stored) in
           if expiresAt stored < new_date ev then
             (case refreshToken_delete d (token_id stored) of
                Inl e \<Rightarrow> (Inl e, d)
              | Inr d1 \<Rightarrow> (Inl (UnauthorizedException ''Refresh token expired''), d1))
           else
             (case refreshToken_delete d (token_id stored) of
                Inl e \<Rightarrow> (Inl e, d)
              | Inr d1 \<Rightarrow>
                  (case stored_user of
                     None \<Rightarrow> (Inl TypeError, d1)
                   | Some u \<Rightarrow> generateTokens l ev d1 (user_id u) (isGuest u)))))"

text \<open>\<open>if (!refreshToken) return\<close>: a missing or empty token is a no-op.\<close>

definition logout :: "lib \<Rightarrow> db \<Rightarrow> string option \<Rightarrow> db" where
  "logout l d rt =
     (case rt of
        None \<Rightarrow> d
      | Some t \<Rightarrow> if t = [] then d else refreshToken_deleteMany_tokenHash d (hashToken l t))"

section \<open>JwtStrategy (auth/strategies/jwt.strategy.ts)\<close>

text \<open>The object \<open>validate\<close> returns, which becomes \<open>req.user\<close>.\<close>

record request_user =
  ru_id :: string
  ru_email :: "string option"
  ru_isGuest :: bool

definition validate :: "db \<Rightarrow> jwt_payload \<Rightarrow> error + request_user" where
  "validate d payload =
     (case findById d (sub payload) of
        None \<Rightarrow> Inl (UnauthorizedException ''User not found'')
      | Some u \<Rightarrow> Inr \<lparr>ru_id = user_id u, ru_email = email u, ru_isGuest = isGuest u\<rparr>)"

text \<open>
  The get-current-identity operation: Passport verifies the bearer token with
  \<open>JWT_ACCESS_SECRET\<close> (\<open>ignoreExpiration: false\<close>), answers 401 when that fails, and
  calls \<open>validate\<close> with the decoded payload otherwise.
\<close>

definition jwt_authenticate :: "lib \<Rightarrow> int \<Rightarrow> db \<Rightarrow> string \<Rightarrow> error + request_user" where
  "jwt_authenticate l now d token =
     (case jwt_verify l token (config_get l ''JWT_ACCESS_SECRET'') now of
        None \<Rightarrow> Inl (UnauthorizedException ''Unauthorized'')
      | Some payload \<Rightarrow> validate d payload)"

section \<open>AuthController (auth.controller.ts)\<close>

text \<open>\<open>String.prototype.startsWith\<close> and \<open>String.prototype.split\<close> with a one-character separator.\<close>

definition startsWith :: "string \<Rightarrow> string \<Rightarrow> bool" where
  "startsWith s p = (take (length p) s = p)"

fun split_on :: "char \<Rightarrow> string \<Rightarrow> string list" where
  "split_on c [] = [[]]"
| "split_on c (x # xs) =
     (if x = c then [] # split_on c xs
      else (case split_on c xs of
              [] \<Rightarrow> [[x]]
            | w # ws \<Rightarrow> (x # w) # ws))"

text \<open>Indexing an array: \<open>undefined\<close> out of range.\<close>

definition js_index :: "'a list \<Rightarrow> nat \<Rightarrow> 'a option" where
  "js_index xs i = (if i < length xs then Some (xs ! i) else None)"

text \<open>
  \<open>extractGuestUserId\<close>: the argument is \<open>req.headers.authorization\<close>. The \<open>try\<close>
  block turns every throw of \<open>verify\<close> (also on an \<open>undefined\<close> token) into
  \<open>undefined\<close>.
\<close>

definition extractGuestUserId :: "lib \<Rightarrow> env \<Rightarrow> string option \<Rightarrow> string option" where
  "extractGuestUserId l ev authHeader =
     (case authHeader of
        None \<Rightarrow> None
      | Some h \<Rightarrow>
          if \<not> startsWith h ''Bearer '' then None
          else (case js_index (split_on CHR '' '' h) 1 of
                  None \<Rightarrow> None
                | Some token \<Rightarrow>
                    (case jwt_verify l token (config_get l ''JWT_ACCESS_SECRET'') (date_now ev) of
                       None \<Rightarrow> None
                     | Some payload \<Rightarrow> if claim_isGuest payload then Some (sub payload) else None)))"

text \<open>
  What a handler answers: the body's \<open>accessToken\<close> and the refresh cookie it sets
  (\<open>setRefreshCookie\<close>: value and \<open>maxAge\<close>).
\<close>

record auth_response =
  body_accessToken :: string
  cookie_refresh_token :: string
  cookie_maxAge :: int

definition setRefreshCookie :: "lib \<Rightarrow> token_pair \<Rightarrow> auth_response" where
  "setRefreshCookie l tokens =
     \<lparr>body_accessToken = accessToken tokens, cookie_refresh_token = refreshToken tokens,
      cookie_maxAge = getExpiresSec l ''JWT_REFRESH_EXPIRES_IN'' 604800 * 1000\<rparr>"

definition controller_register ::
  "lib \<Rightarrow> env \<Rightarrow> db \<Rightarrow> register_data \<Rightarrow> string option \<Rightarrow> (error + auth_response) \<times> db" where
  "controller_register l ev d dto authHeader =
     (let guestUserId = extractGuestUserId l ev authHeader in
      case register l ev d dto guestUserId of
        (Inl e, d1) \<Rightarrow> (Inl e, d1)
      | (Inr tokens, d1) \<Rightarrow> (Inr (setRefreshCookie l tokens), d1))"

section \<open>Store constraints, the account shape and runs of requests\<close>

text \<open>
  The constraints of the schema that the operations of the core rely on: primary keys,
  unique token fingerprints, unique non-null emails (any two rows with the same non-null
  email are the same row), and every refresh token owned by a user. (The unique index on
  \<open>inviteCode\<close> is enforced by \<open>user_create\<close>; no operation of the core reads the
  column, so it is not demanded here.)
\<close>

definition unique_emails :: "user list \<Rightarrow> bool" where
  "unique_emails us \<longleftrightarrow>
     (\<forall>u \<in> set us. \<forall>v \<in> set us. email u \<noteq> None \<and> email u = email v \<longrightarrow> user_id u = user_id v)"

definition db_ok :: "db \<Rightarrow> bool" where
  "db_ok d \<longleftrightarrow>
     distinct (map user_id (user_table d)) \<and>
     distinct (map token_id (refreshToken_table d)) \<and>
     distinct (map tokenHash (refreshToken_table d)) \<and>
     unique_emails (user_table d) \<and>
     (\<forall>t \<in> set (refreshToken_table d). \<exists>u \<in> set (user_table d). user_id u = userId t)"

definition empty_db :: db where
  "empty_db = \<lparr>user_table = [], refreshToken_table = []\<rparr>"



text \<open>
  A request to the core, with what it draws from outside, and the store it leaves behind
  (a failing request keeps the writes it made before it failed, as the code does: there
  is no transaction).
\<close>

datatype request =
    CreateGuest env
  | Register env register_data "string option"
  | Login env string
  | Refresh env string
  | Logout "string option"

fun perform :: "lib \<Rightarrow> db \<Rightarrow> request \<Rightarrow> db" where
  "perform l d (CreateGuest ev) = snd (createGuest l ev d)"
| "perform l d (Register ev dat g) = snd (register l ev d dat g)"
| "perform l d (Login ev uid) = snd (login l ev d uid)"
| "perform l d (Refresh ev rt) = snd (refreshTokens l ev d rt)"
| "perform l d (Logout rt) = logout l d rt"

fun run :: "lib \<Rightarrow> db \<Rightarrow> request list \<Rightarrow> db" where
  "run l d [] = d"
| "run l d (r # rs) = run l (perform l d r) rs"

text \<open>The fingerprint of the refresh token a request would mint, if it mints one.\<close>

fun minted_hash :: "lib \<Rightarrow> request \<Rightarrow> string option" where
  "minted_hash l (CreateGuest ev) = Some (hashToken l (randomBytes_hex ev))"
| "minted_hash l (Register ev dat g) = Some (hashToken l (randomBytes_hex ev))"
| "minted_hash l (Login ev uid) = Some (hashToken l (randomBytes_hex ev))"
| "minted_hash l (Refresh ev rt) = Some (hashToken l (randomBytes_hex ev))"
| "minted_hash l (Logout rt) = None"

text \<open>The record \<open>generateTokens\<close> persists for account \<open>uid\<close>.\<close>

definition minted_record :: "lib \<Rightarrow> env \<Rightarrow> string \<Rightarrow> refresh_token" where
  "minted_record l ev uid =
     \<lparr>token_id = uuid_token ev, tokenHash = hashToken l (randomBytes_hex ev), userId = uid,
      expiresAt = date_now ev + getExpiresSec l ''JWT_REFRESH_EXPIRES_IN'' 604800 * 1000\<rparr>"

text \<open>
  The row \<open>upgradeGuest\<close> writes for a register call that upgrades the guest \<open>u\<close>, and
  the access token \<open>generateTokens\<close> signs.
\<close>

definition upgraded_account :: "lib \<Rightarrow> env \<Rightarrow> register_data \<Rightarrow> user \<Rightarrow> user" where
  "upgraded_account l ev dat u =
     u\<lparr>email := Some (reg_email dat),
       passwordHash := Some (bcrypt_hash l (reg_password dat) 10 (salt ev)),
       displayName := (case reg_displayName dat of None \<Rightarrow> displayName u | Some n \<Rightarrow> Some n),
       isGuest := False\<rparr>"

definition access_token_for :: "lib \<Rightarrow> env \<Rightarrow> string \<Rightarrow> bool \<Rightarrow> string" where
  "access_token_for l ev uid g =
     jwt_sign l \<lparr>sub = uid, claim_isGuest = g\<rparr> (config_get l ''JWT_ACCESS_SECRET'')
       (getExpiresSec l ''JWT_ACCESS_EXPIRES_IN'' 900) (date_now ev)"

definition has_hash :: "db \<Rightarrow> string \<Rightarrow> bool" where
  "has_hash d h \<longleftrightarrow> (\<exists>t \<in> set (refreshToken_table d). tokenHash t = h)"

section \<open>Concrete instances for evaluation\<close>

text \<open>
  Stand-ins for the library functions, used only to evaluate the model at concrete
  inputs; every theorem below is proved for an arbitrary \<open>lib\<close>. The stand-in access
  token of a payload is \<open>G:\<close> or \<open>R:\<close> (guest or registered) followed by the subject.
\<close>

definition example_lib :: lib where
  "example_lib =
     \<lparr>sha256_hex = (\<lambda>s. ''#'' @ s),
      bcrypt_hash = (\<lambda>pw rounds slt. ''$'' @ slt @ ''$'' @ pw),
      bcrypt_compare = (\<lambda>pw h. \<exists>slt \<in> set [''s1'', ''s2'']. h = ''$'' @ slt @ ''$'' @ pw),
      jwt_sign = (\<lambda>p secret expiresIn now. (if claim_isGuest p then ''G:'' else ''R:'') @ sub p),
      jwt_verify = (\<lambda>t secret now.
         case t of
           c # CHR '':'' # i \<Rightarrow>
             if c = CHR ''G'' then Some \<lparr>sub = i, claim_isGuest = True\<rparr>
             else if c = CHR ''R'' then Some \<lparr>sub = i, claim_isGuest = False\<rparr>
             else None
         | _ \<Rightarrow> None),
      config_get = (\<lambda>k. None),
      parseInt10 = (\<lambda>s. None)\<rparr>"

definition example_env :: "int \<Rightarrow> string \<Rightarrow> env" where
  "example_env now n =
     \<lparr>new_date = now, date_now = now, uuid_user = ''u'' @ n, uuid_token = ''t'' @ n,
      randomBytes_hex = ''r'' @ n, salt = ''s1''\<rparr>"

definition example_db :: db where
  "example_db =
     \<lparr>user_table = [\<lparr>user_id = ''u1'', email = None, passwordHash = None, displayName = None,
                      inviteCode = ''AAAAAA'', isGuest = True\<rparr>],
      refreshToken_table = [\<lparr>token_id = ''t1'', tokenHash = ''#r1'', userId = ''u1'',
                              expiresAt = 604800000\<rparr>]\<rparr>"

definition register_example :: register_data where
  "register_example = \<lparr>reg_email = ''a@b.com'', reg_password = ''password123'', reg_displayName = None\<rparr>"


definition upgraded_db :: db where
  "upgraded_db =
     \<lparr>user_table = [\<lparr>user_id = ''u1'', email = Some ''a@b.com'',
                      passwordHash = Some ''$s1$password123'', displayName = None, inviteCode = ''AAAAAA'', isGuest = False\<rparr>],
      refreshToken_table = [\<lparr>token_id = ''t2'', tokenHash = ''#r2'', userId = ''u1'',
                              expiresAt = 604800005\<rparr>]\<rparr>"

definition logged_in_db :: db where
  "logged_in_db =
     example_db\<lparr>refreshToken_table :=
       [\<lparr>token_id = ''t1'', tokenHash = ''#r1'', userId = ''u1'', expiresAt = 604800000\<rparr>,
        \<lparr>token_id = ''t2'', tokenHash = ''#r2'', userId = ''u1'', expiresAt = 604800005\<rparr>]\<rparr>"

definition short_password_example :: register_data where
  "short_password_example = \<lparr>reg_email = ''a@b.com'', reg_password = ''short'', reg_displayName = None\<rparr>"

section \<open>Minting and looking up refresh tokens\<close>

lemmas ex_defs = example_db_def example_lib_def example_env_def hashToken_def

lemmas eval_defs = refreshTokens_def refreshToken_findUnique_def refreshToken_delete_def
  user_findUnique_id_def user_findUnique_email_def generateTokens_def refreshToken_create_def
  getExpiresSec_def user_create_def user_update_def refreshToken_deleteMany_userId_def
  refreshToken_deleteMany_tokenHash_def findById_def findByEmail_def users_createGuest_def
  upgradeGuest_def createRegistered_def createGuest_def register_def login_def logout_def
  Let_def

lemma example_db_ok: "db_ok example_db"
  by (simp add: db_ok_def unique_emails_def example_db_def)

lemma find_None_conv: "(find P xs = None) \<longleftrightarrow> (\<forall>x \<in> set xs. \<not> P x)"
  by (auto simp: find_None_iff)

lemma generateTokens_cases:
  "generateTokens l ev d uid g = (r, d') \<Longrightarrow>
     (\<exists>e. r = Inl e \<and> d' = d) \<or>
     (\<exists>tp. r = Inr tp \<and> refreshToken tp = randomBytes_hex ev \<and>
        \<not> has_hash d (hashToken l (randomBytes_hex ev)) \<and>
        (\<forall>t \<in> set (refreshToken_table d). token_id t \<noteq> uuid_token ev) \<and>
        (\<exists>u \<in> set (user_table d). user_id u = uid) \<and>
        d' = d\<lparr>refreshToken_table := refreshToken_table d @ [minted_record l ev uid]\<rparr>)"
  by (auto simp: generateTokens_def refreshToken_create_def minted_record_def Let_def has_hash_def
        find_None_conv split: if_splits)

lemma generateTokens_succeeds:
  assumes "\<not> has_hash d (hashToken l (randomBytes_hex ev))"
    and "\<forall>t \<in> set (refreshToken_table d). token_id t \<noteq> uuid_token ev"
    and "\<exists>u \<in> set (user_table d). user_id u = uid"
  shows "\<exists>tp. refreshToken tp = randomBytes_hex ev \<and>
     generateTokens l ev d uid g =
       (Inr tp, d\<lparr>refreshToken_table := refreshToken_table d @ [minted_record l ev uid]\<rparr>)"
  using assms
  by (auto simp: generateTokens_def refreshToken_create_def minted_record_def Let_def has_hash_def
        find_None_conv)

lemma refresh_unknown:
  "\<not> has_hash d (hashToken l rt) \<Longrightarrow>
   refreshTokens l ev d rt = (Inl (UnauthorizedException ''Invalid refresh token''), d)"
proof -
  assume "\<not> has_hash d (hashToken l rt)"
  then have "find (\<lambda>t. tokenHash t = hashToken l rt) (refreshToken_table d) = None"
    by (simp add: has_hash_def find_None_conv)
  then show ?thesis
    by (simp add: refreshTokens_def refreshToken_findUnique_def)
qed


lemma user_create_tokens: "refreshToken_table (snd (user_create d i dat)) = refreshToken_table d"
  by (simp add: user_create_def Let_def split: option.splits)

lemma users_createGuest_refused: "users_createGuest ev d = (Inl (PrismaError ''P2011''), d)"
  by (simp add: users_createGuest_def user_create_def)

lemma createRegistered_refused:
  "createRegistered ev d e ph dn =
     (case user_findUnique_email d e of
        Some existing \<Rightarrow> (Inl (ConflictException ''Email already in use''), d)
      | None \<Rightarrow> (Inl (PrismaError ''P2011''), d))"
  by (simp add: createRegistered_def user_create_def split: option.splits)

lemma user_update_tokens: "refreshToken_table (snd (user_update d i e ph dn)) = refreshToken_table d"
  by (simp add: user_update_def Let_def split: option.splits)

lemma upgradeGuest_tokens: "refreshToken_table (snd (upgradeGuest d i e ph dn)) = refreshToken_table d"
  by (simp add: upgradeGuest_def user_update_tokens split: option.splits)

lemma createRegistered_tokens: "refreshToken_table (snd (createRegistered ev d e ph dn)) = refreshToken_table d"
  by (simp add: createRegistered_def user_create_tokens split: option.splits)

lemma users_createGuest_tokens: "refreshToken_table (snd (users_createGuest ev d)) = refreshToken_table d"
  by (simp add: users_createGuest_def user_create_tokens)

lemma has_hash_cong: "refreshToken_table d' = refreshToken_table d \<Longrightarrow> has_hash d' h = has_hash d h"
  by (simp add: has_hash_def)

lemma has_hash_generateTokens:
  "\<not> has_hash d h \<Longrightarrow> hashToken l (randomBytes_hex ev) \<noteq> h \<Longrightarrow>
   \<not> has_hash (snd (generateTokens l ev d uid g)) h"
  by (auto simp: generateTokens_def refreshToken_create_def Let_def has_hash_def split: if_splits)

lemma has_hash_filter:
  "\<not> has_hash d h \<Longrightarrow> \<not> has_hash (d\<lparr>refreshToken_table := filter P (refreshToken_table d)\<rparr>) h"
  by (auto simp: has_hash_def)

lemma has_hash_createGuest:
  assumes "\<not> has_hash d h" "hashToken l (randomBytes_hex ev) \<noteq> h"
  shows "\<not> has_hash (snd (createGuest l ev d)) h"
proof (cases "users_createGuest ev d")
  case (Pair r d1)
  have d1: "\<not> has_hash d1 h"
    using assms(1) users_createGuest_tokens[of ev d] Pair by (simp add: has_hash_def)
  show ?thesis
    using Pair d1 assms(2) assms(1) by (cases r) (simp_all add: createGuest_def has_hash_generateTokens)
qed

lemma has_hash_register:
  assumes "\<not> has_hash d h" "hashToken l (randomBytes_hex ev) \<noteq> h"
  shows "\<not> has_hash (snd (register l ev d dat g)) h"
proof -
  define ph where "ph = bcrypt_hash l (reg_password dat) 10 (salt ev)"
  define r where "r = (case g of
                 Some x \<Rightarrow>
                   if x \<noteq> [] then upgradeGuest d x (reg_email dat) ph (reg_displayName dat)
                   else createRegistered ev d (reg_email dat) ph (reg_displayName dat)
               | None \<Rightarrow> createRegistered ev d (reg_email dat) ph (reg_displayName dat))"
  have tok: "refreshToken_table (snd r) = refreshToken_table d"
    by (simp add: r_def upgradeGuest_tokens createRegistered_tokens split: option.splits)
  then have nh: "\<not> has_hash (snd r) h"
    using assms(1) by (simp add: has_hash_def)
  have reg: "register l ev d dat g =
      (case r of (Inl e, d1) \<Rightarrow> (Inl e, d1)
       | (Inr u, d1) \<Rightarrow>
           generateTokens l ev (refreshToken_deleteMany_userId d1 (user_id u)) (user_id u) False)"
    unfolding register_def r_def ph_def Let_def by (rule refl)
  obtain x d1 where r: "r = (x, d1)" by (cases r)
  show ?thesis
  proof (cases x)
    case (Inl e)
    then show ?thesis using reg r nh by simp
  next
    case (Inr u)
    have "\<not> has_hash (refreshToken_deleteMany_userId d1 (user_id u)) h"
      using nh r by (simp add: refreshToken_deleteMany_userId_def has_hash_filter)
    then show ?thesis using reg r Inr assms(2) by (simp add: has_hash_generateTokens)
  qed
qed

lemma has_hash_login:
  assumes "\<not> has_hash d h" "hashToken l (randomBytes_hex ev) \<noteq> h"
  shows "\<not> has_hash (snd (login l ev d uid)) h"
  using assms by (simp add: login_def has_hash_generateTokens split: option.splits)

lemma has_hash_refreshTokens:
  assumes "\<not> has_hash d h" "hashToken l (randomBytes_hex ev) \<noteq> h"
  shows "\<not> has_hash (snd (refreshTokens l ev d rt)) h"
  using assms
  by (auto simp: refreshTokens_def Let_def refreshToken_delete_def has_hash_generateTokens has_hash_filter
      split: option.splits if_splits)

lemma has_hash_logout: "\<not> has_hash d h \<Longrightarrow> \<not> has_hash (logout l d rt) h"
  by (simp add: logout_def refreshToken_deleteMany_tokenHash_def has_hash_filter split: option.splits)

lemma has_hash_perform:
  "\<not> has_hash d h \<Longrightarrow> minted_hash l r \<noteq> Some h \<Longrightarrow> \<not> has_hash (perform l d r) h"
  by (cases r) (simp_all add: has_hash_createGuest has_hash_register has_hash_login
      has_hash_refreshTokens has_hash_logout)

lemma has_hash_run:
  "\<not> has_hash d h \<Longrightarrow> \<forall>r \<in> set rs. minted_hash l r \<noteq> Some h \<Longrightarrow> \<not> has_hash (run l d rs) h"
  by (induction rs arbitrary: d) (simp_all add: has_hash_perform)


lemma findUnique_None: "\<not> has_hash d h \<Longrightarrow> refreshToken_findUnique d h = None"
  by (simp add: refreshToken_findUnique_def has_hash_def find_None_conv)

lemma find_SomeD: "find P xs = Some x \<Longrightarrow> x \<in> set xs \<and> P x"
  by (auto simp: find_Some_iff)

lemma delete_stored_removes_hash:
  assumes ok: "db_ok d" and f: "refreshToken_findUnique d h = Some stored"
  shows "\<not> has_hash (d\<lparr>refreshToken_table :=
            filter (\<lambda>t. token_id t \<noteq> token_id stored) (refreshToken_table d)\<rparr>) h"
proof -
  have s: "stored \<in> set (refreshToken_table d)" "tokenHash stored = h"
    using find_SomeD[OF f[unfolded refreshToken_findUnique_def]] by simp_all
  have inj: "inj_on tokenHash (set (refreshToken_table d))"
    using ok by (simp add: db_ok_def distinct_map)
  have "t = stored" if "t \<in> set (refreshToken_table d)" "tokenHash t = h" for t
    using that s inj by (auto dest: inj_onD)
  then show ?thesis by (auto simp: has_hash_def)
qed

lemma delete_stored:
  assumes f: "refreshToken_findUnique d h = Some stored"
  shows "refreshToken_delete d (token_id stored) =
     Inr (d\<lparr>refreshToken_table := filter (\<lambda>t. token_id t \<noteq> token_id stored) (refreshToken_table d)\<rparr>)"
proof -
  have s: "stored \<in> set (refreshToken_table d)"
    using find_SomeD[OF f[unfolded refreshToken_findUnique_def]] by simp
  then have "find (\<lambda>t. token_id t = token_id stored) (refreshToken_table d) \<noteq> None"
    by (auto simp: find_None_conv)
  then show ?thesis by (simp add: refreshToken_delete_def)
qed

lemma stored_owner:
  assumes ok: "db_ok d" and f: "refreshToken_findUnique d h = Some stored"
  shows "\<exists>u. user_findUnique_id d (userId stored) = Some u \<and> user_id u = userId stored
     \<and> u \<in> set (user_table d)"
proof -
  have s: "stored \<in> set (refreshToken_table d)"
    using find_SomeD[OF f[unfolded refreshToken_findUnique_def]] by simp
  then have "\<exists>u \<in> set (user_table d). user_id u = userId stored"
    using ok by (simp add: db_ok_def)
  then have "find (\<lambda>u. user_id u = userId stored) (user_table d) \<noteq> None"
    by (auto simp: find_None_conv)
  then obtain u where "find (\<lambda>u. user_id u = userId stored) (user_table d) = Some u" by auto
  then show ?thesis using find_SomeD[of "\<lambda>u. user_id u = userId stored" "user_table d" u]
    by (simp add: user_findUnique_id_def)
qed

section \<open>The constraints of the schema hold in every reachable store\<close>

lemma users_replace_emails:
  assumes uniq: "\<forall>a \<in> set us. \<forall>b \<in> set us. email a \<noteq> None \<and> email a = email b \<longrightarrow> user_id a = user_id b"
    and other: "\<forall>v \<in> set us. email v = Some e \<longrightarrow> user_id v = i"
    and u': "user_id u' = i" "email u' = Some e"
    and a: "a \<in> set us" and b: "b \<in> set us"
    and eq: "email (if user_id a = i then u' else a) \<noteq> None"
       "email (if user_id a = i then u' else a) = email (if user_id b = i then u' else b)"
  shows "user_id (if user_id a = i then u' else a) = user_id (if user_id b = i then u' else b)"
proof (cases "user_id a = i")
  case ai: True
  show ?thesis
  proof (cases "user_id b = i")
    case True
    then show ?thesis using ai by simp
  next
    case False
    then have "email b = Some e" using eq(2) ai u' by simp
    then have "user_id b = i" using other b by blast
    then show ?thesis using False by simp
  qed
next
  case ai: False
  show ?thesis
  proof (cases "user_id b = i")
    case True
    then have "email a = Some e" using eq(2) ai u' by simp
    then have "user_id a = i" using other a by blast
    then show ?thesis using ai by simp
  next
    case False
    have "email a \<noteq> None" "email a = email b" using eq ai False by simp_all
    then have "user_id a = user_id b" using uniq a b by blast
    then show ?thesis using ai False by simp
  qed
qed


lemma db_ok_user_update: 
  assumes ok: "db_ok d"
  shows "db_ok (snd (user_update d i e ph dn))"
proof (cases "find (\<lambda>u. user_id u = i) (user_table d)")
  case None
  then show ?thesis using ok by (simp add: user_update_def)
next
  case (Some u)
  have ui: "user_id u = i" using find_SomeD[OF Some] by simp
  show ?thesis
  proof (cases "find (\<lambda>v. email v = Some e \<and> user_id v \<noteq> i) (user_table d) = None")
    case False
    then show ?thesis using ok Some by (simp add: user_update_def)
  next
    case True
    define u' where "u' = u\<lparr>email := Some e, passwordHash := Some ph,
                      displayName := (case dn of None \<Rightarrow> displayName u | Some n \<Rightarrow> Some n),
                      isGuest := False\<rparr>"
    have u': "user_id u' = i" "email u' = Some e"
      by (simp_all add: u'_def ui)
    let ?f = "\<lambda>v. if user_id v = i then u' else v"
    have res: "user_update d i e ph dn = (Inr u', d\<lparr>user_table := map ?f (user_table d)\<rparr>)"
      unfolding user_update_def Let_def u'_def using Some True by simp
    have ids: "map user_id (map ?f (user_table d)) = map user_id (user_table d)"
      using u'(1) by (simp add: comp_def if_distrib[of user_id] cong: if_cong)
    have other: "\<forall>v \<in> set (user_table d). email v = Some e \<longrightarrow> user_id v = i"
      using True unfolding find_None_conv by blast
    have uniq: "\<forall>a \<in> set (user_table d). \<forall>b \<in> set (user_table d). 
       email a \<noteq> None \<and> email a = email b \<longrightarrow> user_id a = user_id b"
      using ok unfolding db_ok_def unique_emails_def by blast
    have c1: "distinct (map user_id (map ?f (user_table d)))"
      unfolding ids using ok by (simp add: db_ok_def)
    have c4: "unique_emails (map ?f (user_table d))"
      unfolding unique_emails_def
    proof (intro ballI impI)
      fix a b assume a: "a \<in> set (map ?f (user_table d))" and b: "b \<in> set (map ?f (user_table d))"
        and eq: "email a \<noteq> None \<and> email a = email b"
      obtain a0 where a0: "a0 \<in> set (user_table d)" "a = ?f a0" using a by auto
      obtain b0 where b0: "b0 \<in> set (user_table d)" "b = ?f b0" using b by auto
      have e1: "email (?f a0) \<noteq> None" and e2: "email (?f a0) = email (?f b0)"
        using eq unfolding a0(2) b0(2) by blast+
      show "user_id a = user_id b"
        unfolding a0(2) b0(2)
        by (rule users_replace_emails[OF uniq other u' a0(1) b0(1) e1 e2])
    qed
    have c5: "\<forall>t \<in> set (refreshToken_table d). \<exists>w \<in> set (map ?f (user_table d)). user_id w = userId t"
    proof
      fix t assume "t \<in> set (refreshToken_table d)"
      then obtain w where w: "w \<in> set (user_table d)" "user_id w = userId t"
        using ok unfolding db_ok_def by blast
      have "?f w \<in> ?f ` set (user_table d)" using w(1) by (rule imageI)
      then have "?f w \<in> set (map ?f (user_table d))" by (simp only: set_map)
      moreover have "user_id (?f w) = userId t" using w(2) u'(1) by simp
      ultimately show "\<exists>w \<in> set (map ?f (user_table d)). user_id w = userId t" by blast
    qed
    have c23: "distinct (map token_id (refreshToken_table d))" "distinct (map tokenHash (refreshToken_table d))"
      using ok by (simp_all add: db_ok_def)
    have "db_ok (d\<lparr>user_table := map ?f (user_table d)\<rparr>)"
      unfolding db_ok_def using c1 c23 c4 c5 by (simp del: set_map map_map)
    then show ?thesis unfolding res by simp
  qed
qed


lemma db_ok_user_create: "db_ok d \<Longrightarrow> db_ok (snd (user_create d i dat))"
  unfolding db_ok_def user_create_def unique_emails_def Let_def
  by (auto simp: find_None_conv split: if_splits option.splits)

lemma db_ok_filter_tokens:
  "db_ok d \<Longrightarrow> db_ok (d\<lparr>refreshToken_table := filter P (refreshToken_table d)\<rparr>)"
  unfolding db_ok_def by (auto simp: distinct_map_filter)

lemma db_ok_refreshToken_create:
  "db_ok d \<Longrightarrow> refreshToken_create d t = Inr d' \<Longrightarrow> db_ok d'"
  unfolding refreshToken_create_def db_ok_def
  by (auto simp: find_None_conv split: if_splits) blast+

lemma db_ok_generateTokens: "db_ok d \<Longrightarrow> db_ok (snd (generateTokens l ev d uid g))"
  unfolding generateTokens_def Let_def
  by (auto split: sum.splits dest: db_ok_refreshToken_create)

lemma db_ok_users_createGuest: "db_ok d \<Longrightarrow> db_ok (snd (users_createGuest ev d))"
  by (simp add: users_createGuest_def db_ok_user_create)

lemma db_ok_createRegistered: "db_ok d \<Longrightarrow> db_ok (snd (createRegistered ev d e ph dn))"
  by (simp add: createRegistered_def db_ok_user_create split: option.splits)

lemma db_ok_upgradeGuest: "db_ok d \<Longrightarrow> db_ok (snd (upgradeGuest d i e ph dn))"
  by (simp add: upgradeGuest_def db_ok_user_update split: option.splits)

lemma db_ok_createGuest: "db_ok d \<Longrightarrow> db_ok (snd (createGuest l ev d))"
proof -
  assume ok: "db_ok d"
  obtain r d1 where r: "users_createGuest ev d = (r, d1)" by (cases "users_createGuest ev d")
  have "db_ok d1" using db_ok_users_createGuest[OF ok, of ev] r by simp
  then show ?thesis using r by (cases r) (simp_all add: createGuest_def db_ok_generateTokens)
qed

lemma db_ok_register: "db_ok d \<Longrightarrow> db_ok (snd (register l ev d dat g))"
proof -
  assume ok: "db_ok d"
  define ph where "ph = bcrypt_hash l (reg_password dat) 10 (salt ev)"
  define r where "r = (case g of
                 Some x \<Rightarrow>
                   if x \<noteq> [] then upgradeGuest d x (reg_email dat) ph (reg_displayName dat)
                   else createRegistered ev d (reg_email dat) ph (reg_displayName dat)
               | None \<Rightarrow> createRegistered ev d (reg_email dat) ph (reg_displayName dat))"
  have ok1: "db_ok (snd r)"
    using ok by (simp add: r_def db_ok_upgradeGuest db_ok_createRegistered split: option.splits)
  have reg: "register l ev d dat g =
      (case r of (Inl e, d1) \<Rightarrow> (Inl e, d1)
       | (Inr u, d1) \<Rightarrow>
           generateTokens l ev (refreshToken_deleteMany_userId d1 (user_id u)) (user_id u) False)"
    unfolding register_def r_def ph_def Let_def by (rule refl)
  obtain x d1 where r: "r = (x, d1)" by (cases r)
  show ?thesis
  proof (cases x)
    case (Inl e)
    then show ?thesis using reg r ok1 by simp
  next
    case (Inr u)
    have "db_ok (refreshToken_deleteMany_userId d1 (user_id u))"
      using ok1 r by (simp add: refreshToken_deleteMany_userId_def db_ok_filter_tokens)
    then show ?thesis using reg r Inr by (simp add: db_ok_generateTokens)
  qed
qed

lemma db_ok_login: "db_ok d \<Longrightarrow> db_ok (snd (login l ev d uid))"
  by (simp add: login_def db_ok_generateTokens split: option.splits)

lemma db_ok_refreshToken_delete: "db_ok d \<Longrightarrow> refreshToken_delete d i = Inr d' \<Longrightarrow> db_ok d'"
  by (auto simp: refreshToken_delete_def db_ok_filter_tokens split: if_splits)

lemma db_ok_refreshTokens: "db_ok d \<Longrightarrow> db_ok (snd (refreshTokens l ev d rt))"
  unfolding refreshTokens_def Let_def
  by (auto split: option.splits sum.splits
      dest: db_ok_refreshToken_delete intro: db_ok_generateTokens)

lemma db_ok_logout: "db_ok d \<Longrightarrow> db_ok (logout l d rt)"
  by (simp add: logout_def refreshToken_deleteMany_tokenHash_def db_ok_filter_tokens split: option.splits)

lemma db_ok_perform: "db_ok d \<Longrightarrow> db_ok (perform l d r)"
  by (cases r) (simp_all add: db_ok_createGuest db_ok_register db_ok_login db_ok_refreshTokens
      db_ok_logout)

lemma db_ok_run: "db_ok d \<Longrightarrow> db_ok (run l d rs)"
  by (induction rs arbitrary: d) (simp_all add: db_ok_perform)

lemma reachable_db_ok: "db_ok (run l empty_db rs)"
  by (rule db_ok_run) (simp add: db_ok_def unique_emails_def empty_db_def)

section \<open>Refresh: rotation and expiry\<close>

text \<open>
  C1 (single-use refresh). In a store that meets the schema's constraints, let the
  fingerprint of the raw token \<open>rt\<close> have a persisted record \<open>stored\<close> that is not
  expired at the time of the call, and let the call draw a random token whose fingerprint
  and a row identifier which are not in the store. Then the refresh succeeds: it returns a
  pair whose refresh token is the drawn value, deletes \<open>stored\<close> and appends the record
  of the new pair. After that, whatever requests \<open>rs\<close> are served in between (as long as
  none of them draws a token with the fingerprint of \<open>rt\<close>), every refresh with \<open>rt\<close>
  fails with Unauthorized, "Invalid refresh token", and changes nothing.
\<close>

theorem single_use_refresh:
  assumes ok: "db_ok d"
    and f: "refreshToken_findUnique d (hashToken l rt) = Some stored"
    and live: "new_date ev \<le> expiresAt stored"
    and fresh_hash: "\<not> has_hash d (hashToken l (randomBytes_hex ev))"
    and fresh_id: "\<forall>t \<in> set (refreshToken_table d). token_id t \<noteq> uuid_token ev"
    and later: "\<forall>r \<in> set rs. minted_hash l r \<noteq> Some (hashToken l rt)"
  shows "\<exists>tp d1.
           d1 = d\<lparr>refreshToken_table :=
                    filter (\<lambda>t. token_id t \<noteq> token_id stored) (refreshToken_table d)
                    @ [minted_record l ev (userId stored)]\<rparr> \<and>
           refreshTokens l ev d rt = (Inr tp, d1) \<and>
           refreshToken tp = randomBytes_hex ev \<and>
           stored \<notin> set (refreshToken_table d1) \<and>
           refreshTokens l ev' (run l d1 rs) rt =
             (Inl (UnauthorizedException ''Invalid refresh token''), run l d1 rs)"
proof -
  let ?d0 = "d\<lparr>refreshToken_table :=
                 filter (\<lambda>t. token_id t \<noteq> token_id stored) (refreshToken_table d)\<rparr>"
  let ?d1 = "d\<lparr>refreshToken_table :=
                 filter (\<lambda>t. token_id t \<noteq> token_id stored) (refreshToken_table d)
                 @ [minted_record l ev (userId stored)]\<rparr>"
  have d1: "?d0\<lparr>refreshToken_table := refreshToken_table ?d0 @ [minted_record l ev (userId stored)]\<rparr> = ?d1"
    by simp
  have sh: "stored \<in> set (refreshToken_table d)" "tokenHash stored = hashToken l rt"
    using find_SomeD[OF f[unfolded refreshToken_findUnique_def]] by simp_all
  obtain u where u: "user_findUnique_id d (userId stored) = Some u" "user_id u = userId stored"
      "u \<in> set (user_table d)"
    using stored_owner[OF ok f] by blast
  have g1: "\<not> has_hash ?d0 (hashToken l (randomBytes_hex ev))"
    using fresh_hash by (rule has_hash_filter)
  have g2: "\<forall>t \<in> set (refreshToken_table ?d0). token_id t \<noteq> uuid_token ev"
    using fresh_id by simp
  have g3: "\<exists>v \<in> set (user_table ?d0). user_id v = userId stored"
    using u by auto
  obtain tp where tp: "refreshToken tp = randomBytes_hex ev"
      "generateTokens l ev ?d0 (userId stored) (isGuest u) = (Inr tp, ?d1)"
    using generateTokens_succeeds[OF g1 g2 g3, of "isGuest u"] unfolding d1 by blast
  have first: "refreshTokens l ev d rt = (Inr tp, ?d1)"
    using f live u tp by (simp add: refreshTokens_def Let_def delete_stored[OF f])
  have ne: "hashToken l (randomBytes_hex ev) \<noteq> hashToken l rt"
    using fresh_hash sh by (auto simp: has_hash_def)
  have "\<not> has_hash ?d0 (hashToken l rt)"
    by (rule delete_stored_removes_hash[OF ok f])
  then have gone: "\<not> has_hash ?d1 (hashToken l rt)"
    using ne by (auto simp: has_hash_def minted_record_def)
  then have absent: "stored \<notin> set (refreshToken_table ?d1)"
    using sh by (auto simp: has_hash_def)
  have "\<not> has_hash (run l ?d1 rs) (hashToken l rt)"
    using gone later by (rule has_hash_run)
  then have again: "refreshTokens l ev' (run l ?d1 rs) rt =
      (Inl (UnauthorizedException ''Invalid refresh token''), run l ?d1 rs)"
    by (rule refresh_unknown)
  show ?thesis using first tp(1) absent again by blast
qed

theorem single_use_refresh_witness:
  "db_ok example_db \<and>
   refreshToken_findUnique example_db (hashToken example_lib ''r1'') =
     Some \<lparr>token_id = ''t1'', tokenHash = ''#r1'', userId = ''u1'', expiresAt = 604800000\<rparr> \<and>
   refreshTokens example_lib (example_env 5 ''2'') example_db ''r1'' =
     (Inr \<lparr>accessToken = ''G:u1'', refreshToken = ''r2''\<rparr>,
      example_db\<lparr>refreshToken_table :=
        [\<lparr>token_id = ''t2'', tokenHash = ''#r2'', userId = ''u1'', expiresAt = 604800005\<rparr>]\<rparr>) \<and>
   refreshTokens example_lib (example_env 7 ''4'')
     (run example_lib
        (example_db\<lparr>refreshToken_table :=
           [\<lparr>token_id = ''t2'', tokenHash = ''#r2'', userId = ''u1'', expiresAt = 604800005\<rparr>]\<rparr>)
        [Logout (Some ''r1''), CreateGuest (example_env 6 ''3'')]) ''r1'' =
     (Inl (UnauthorizedException ''Invalid refresh token''),
      run example_lib
        (example_db\<lparr>refreshToken_table :=
           [\<lparr>token_id = ''t2'', tokenHash = ''#r2'', userId = ''u1'', expiresAt = 604800005\<rparr>]\<rparr>)
        [Logout (Some ''r1''), CreateGuest (example_env 6 ''3'')])"
proof -
  let ?s = "\<lparr>token_id = ''t1'', tokenHash = ''#r1'', userId = ''u1'', expiresAt = 604800000\<rparr>"
  let ?ev = "example_env 5 ''2''"
  let ?rs = "[Logout (Some ''r1''), CreateGuest (example_env 6 ''3'')]"
  have f: "refreshToken_findUnique example_db (hashToken example_lib ''r1'') = Some ?s"
    by (simp add: refreshToken_findUnique_def ex_defs)
  have live: "new_date ?ev \<le> expiresAt ?s"
    by (simp add: example_env_def)
  have fh: "\<not> has_hash example_db (hashToken example_lib (randomBytes_hex ?ev))"
    by (simp add: has_hash_def ex_defs)
  have fi: "\<forall>t \<in> set (refreshToken_table example_db). token_id t \<noteq> uuid_token ?ev"
    by (simp add: ex_defs)
  have later: "\<forall>r \<in> set ?rs. minted_hash example_lib r \<noteq> Some (hashToken example_lib ''r1'')"
    by (simp add: ex_defs)
  have flt: "filter (\<lambda>t. token_id t \<noteq> token_id ?s) (refreshToken_table example_db) = []"
    by (simp add: example_db_def)
  have m: "minted_record example_lib ?ev (userId ?s) =
      \<lparr>token_id = ''t2'', tokenHash = ''#r2'', userId = ''u1'', expiresAt = 604800005\<rparr>"
    by (simp add: minted_record_def getExpiresSec_def ex_defs)
  have first: "refreshTokens example_lib ?ev example_db ''r1'' =
     (Inr \<lparr>accessToken = ''G:u1'', refreshToken = ''r2''\<rparr>,
      example_db\<lparr>refreshToken_table :=
        [\<lparr>token_id = ''t2'', tokenHash = ''#r2'', userId = ''u1'', expiresAt = 604800005\<rparr>]\<rparr>)"
    by (simp add: eval_defs ex_defs)
  obtain tp :: token_pair and d1 where
    d1: "d1 = example_db\<lparr>refreshToken_table :=
                 filter (\<lambda>t. token_id t \<noteq> token_id ?s) (refreshToken_table example_db)
                 @ [minted_record example_lib ?ev (userId ?s)]\<rparr>"
    and again: "refreshTokens example_lib (example_env 7 ''4'') (run example_lib d1 ?rs) ''r1'' =
             (Inl (UnauthorizedException ''Invalid refresh token''), run example_lib d1 ?rs)"
    using single_use_refresh[OF example_db_ok f live fh fi later, of "example_env 7 ''4''"]
    by blast
  have "d1 = example_db\<lparr>refreshToken_table :=
        [\<lparr>token_id = ''t2'', tokenHash = ''#r2'', userId = ''u1'', expiresAt = 604800005\<rparr>]\<rparr>"
    unfolding d1 flt m by simp
  then show ?thesis
    using example_db_ok f first again by simp
qed

text \<open>
  C3 (expiry enforcement). In a store that meets the schema's constraints, a refresh
  with a raw token whose persisted record has its expiry before the time of the call fails
  with Unauthorized, "Refresh token expired", and leaves the store without that record;
  a second refresh with the same raw value, at any time, finds no record and fails with
  Unauthorized, "Invalid refresh token".
\<close>

theorem expired_refresh_removed:
  assumes ok: "db_ok d"
    and f: "refreshToken_findUnique d (hashToken l rt) = Some stored"
    and ex: "expiresAt stored < new_date ev"
  shows "\<exists>d1. d1 = d\<lparr>refreshToken_table :=
                       filter (\<lambda>t. token_id t \<noteq> token_id stored) (refreshToken_table d)\<rparr> \<and>
           refreshTokens l ev d rt = (Inl (UnauthorizedException ''Refresh token expired''), d1) \<and>
           stored \<notin> set (refreshToken_table d1) \<and>
           refreshToken_findUnique d1 (hashToken l rt) = None \<and>
           refreshTokens l ev' d1 rt = (Inl (UnauthorizedException ''Invalid refresh token''), d1)"
proof -
  let ?d1 = "d\<lparr>refreshToken_table :=
                 filter (\<lambda>t. token_id t \<noteq> token_id stored) (refreshToken_table d)\<rparr>"
  have first: "refreshTokens l ev d rt = (Inl (UnauthorizedException ''Refresh token expired''), ?d1)"
    using f ex by (simp add: refreshTokens_def Let_def delete_stored[OF f])
  have gone: "\<not> has_hash ?d1 (hashToken l rt)"
    by (rule delete_stored_removes_hash[OF ok f])
  then have none: "refreshToken_findUnique ?d1 (hashToken l rt) = None"
    by (rule findUnique_None)
  have second: "refreshTokens l ev' ?d1 rt = (Inl (UnauthorizedException ''Invalid refresh token''), ?d1)"
    by (rule refresh_unknown[OF gone])
  have absent: "stored \<notin> set (refreshToken_table ?d1)"
    by simp
  show ?thesis using first absent none second by blast
qed

theorem expired_refresh_removed_witness:
  "db_ok example_db \<and>
   refreshToken_findUnique example_db (hashToken example_lib ''r1'') =
     Some \<lparr>token_id = ''t1'', tokenHash = ''#r1'', userId = ''u1'', expiresAt = 604800000\<rparr> \<and>
   refreshTokens example_lib (example_env 604800001 ''2'') example_db ''r1'' =
     (Inl (UnauthorizedException ''Refresh token expired''), example_db\<lparr>refreshToken_table := []\<rparr>) \<and>
   refreshTokens example_lib (example_env 604800002 ''3'') (example_db\<lparr>refreshToken_table := []\<rparr>) ''r1'' =
     (Inl (UnauthorizedException ''Invalid refresh token''), example_db\<lparr>refreshToken_table := []\<rparr>)"
proof -
  let ?s = "\<lparr>token_id = ''t1'', tokenHash = ''#r1'', userId = ''u1'', expiresAt = 604800000\<rparr>"
  have f: "refreshToken_findUnique example_db (hashToken example_lib ''r1'') = Some ?s"
    by (simp add: refreshToken_findUnique_def ex_defs)
  have ex: "expiresAt ?s < new_date (example_env 604800001 ''2'')"
    by (simp add: example_env_def)
  have flt: "filter (\<lambda>t. token_id t \<noteq> token_id ?s) (refreshToken_table example_db) = []"
    by (simp add: example_db_def)
  show ?thesis
    using expired_refresh_removed[OF example_db_ok f ex, of "example_env 604800002 ''3''"]
      example_db_ok f flt by simp
qed

section \<open>Registration\<close>


lemma register_unfold:
  "register l ev d dat g =
     (case (case g of
              Some x \<Rightarrow>
                if x \<noteq> [] then upgradeGuest d x (reg_email dat) (bcrypt_hash l (reg_password dat) 10 (salt ev)) (reg_displayName dat)
                else createRegistered ev d (reg_email dat) (bcrypt_hash l (reg_password dat) 10 (salt ev)) (reg_displayName dat)
            | None \<Rightarrow> createRegistered ev d (reg_email dat) (bcrypt_hash l (reg_password dat) 10 (salt ev)) (reg_displayName dat)) of
        (Inl e, d1) \<Rightarrow> (Inl e, d1)
      | (Inr u, d1) \<Rightarrow>
          generateTokens l ev (refreshToken_deleteMany_userId d1 (user_id u)) (user_id u) False)"
  unfolding register_def Let_def by (rule refl)

lemma find_append_last:
  "find P (xs @ [x]) = (case find P xs of None \<Rightarrow> (if P x then Some x else None) | Some y \<Rightarrow> Some y)"
  by (induction xs) auto

lemma find_by_id:
  "distinct (map user_id us) \<Longrightarrow> u \<in> set us \<Longrightarrow> find (\<lambda>v. user_id v = user_id u) us = Some u"
  by (induction us) auto

lemma upgradeGuest_Inr:
  assumes "upgradeGuest d g e ph dn = (Inr u, d1)"
  shows "user_id u = g \<and> email u = Some e \<and> passwordHash u = Some ph \<and> \<not> isGuest u \<and>
         u \<in> set (user_table d1) \<and> refreshToken_table d1 = refreshToken_table d \<and>
         (\<exists>old. findById d g = Some old \<and> isGuest old)"
proof -
  obtain old where old: "user_findUnique_id d g = Some old" "isGuest old"
      "user_findUnique_email d e = None" "user_update d g e ph dn = (Inr u, d1)"
    using assms by (auto simp: upgradeGuest_def split: option.splits if_splits)
  have o: "old \<in> set (user_table d)" "user_id old = g"
    using find_SomeD[OF old(1)[unfolded user_findUnique_id_def]] by simp_all
  have f: "find (\<lambda>u. user_id u = g) (user_table d) = Some old"
    using old(1) by (simp add: user_findUnique_id_def)
  have "u = old\<lparr>email := Some e, passwordHash := Some ph,
                 displayName := (case dn of None \<Rightarrow> displayName old | Some n \<Rightarrow> Some n),
                 isGuest := False\<rparr> \<and>
        d1 = d\<lparr>user_table := map (\<lambda>v. if user_id v = g then u else v) (user_table d)\<rparr>"
    using old(4) f by (auto simp: user_update_def Let_def split: if_splits)
  then have u: "user_id u = g" "email u = Some e" "passwordHash u = Some ph" "\<not> isGuest u"
    and d1: "d1 = d\<lparr>user_table := map (\<lambda>v. if user_id v = g then u else v) (user_table d)\<rparr>"
    using o(2) by simp_all
  have "(\<lambda>v. if user_id v = g then u else v) old \<in> (\<lambda>v. if user_id v = g then u else v) ` set (user_table d)"
    using o(1) by (rule imageI)
  then have "u \<in> set (user_table d1)"
    using o(2) d1 by simp
  then show ?thesis using u d1 old(1,2) by (simp add: findById_def)
qed

lemma createRegistered_Inr:
  assumes "createRegistered ev d e ph dn = (Inr u, d1)"
  shows "user_id u = uuid_user ev \<and> email u = Some e \<and> passwordHash u = Some ph \<and> \<not> isGuest u \<and>
         u \<in> set (user_table d1) \<and> refreshToken_table d1 = refreshToken_table d \<and>
         findById d (uuid_user ev) = None"
  using assms by (simp add: createRegistered_refused split: option.splits)

lemma register_Inr:
  assumes "register l ev d dat g = (Inr tp, d2)"
  shows "\<exists>u d1. generateTokens l ev (refreshToken_deleteMany_userId d1 (user_id u)) (user_id u) False
            = (Inr tp, d2) \<and>
          email u = Some (reg_email dat) \<and> \<not> isGuest u \<and> passwordHash u \<noteq> None \<and>
          u \<in> set (user_table d1) \<and> refreshToken_table d1 = refreshToken_table d \<and>
          (db_ok d \<longrightarrow> db_ok d1) \<and>
          user_id u = (case g of Some x \<Rightarrow> if x \<noteq> [] then x else uuid_user ev | None \<Rightarrow> uuid_user ev)"
proof -
  define r where "r = (case g of
              Some x \<Rightarrow>
                if x \<noteq> [] then upgradeGuest d x (reg_email dat) (bcrypt_hash l (reg_password dat) 10 (salt ev)) (reg_displayName dat)
                else createRegistered ev d (reg_email dat) (bcrypt_hash l (reg_password dat) 10 (salt ev)) (reg_displayName dat)
            | None \<Rightarrow> createRegistered ev d (reg_email dat) (bcrypt_hash l (reg_password dat) 10 (salt ev)) (reg_displayName dat))"
  obtain x d1 where r: "r = (x, d1)" by (cases r)
  have reg: "(case r of (Inl e, d1) \<Rightarrow> (Inl e, d1)
      | (Inr u, d1) \<Rightarrow>
          generateTokens l ev (refreshToken_deleteMany_userId d1 (user_id u)) (user_id u) False) = (Inr tp, d2)"
    using assms unfolding register_unfold r_def by simp
  then obtain u where x: "x = Inr u" using r by (cases x) simp_all
  have gen: "generateTokens l ev (refreshToken_deleteMany_userId d1 (user_id u)) (user_id u) False = (Inr tp, d2)"
    using reg r x by simp
  have props: "email u = Some (reg_email dat) \<and> \<not> isGuest u \<and> passwordHash u \<noteq> None \<and>
          u \<in> set (user_table d1) \<and> refreshToken_table d1 = refreshToken_table d \<and>
          user_id u = (case g of Some x \<Rightarrow> if x \<noteq> [] then x else uuid_user ev | None \<Rightarrow> uuid_user ev)"
    using r x unfolding r_def
    by (auto split: option.splits if_splits dest!: upgradeGuest_Inr createRegistered_Inr)
  have "db_ok (snd r)" if "db_ok d"
    unfolding r_def using that
    by (simp add: db_ok_upgradeGuest db_ok_createRegistered split: option.splits)
  then have keeps: "db_ok d \<longrightarrow> db_ok d1" using r by simp
  show ?thesis
    using gen props keeps by blast
qed

text \<open>
  C2 (session invalidation on registration). Let a register call (fresh registration or
  guest upgrade) succeed in a store that meets the schema's constraints, the drawn refresh
  token having a fingerprint that is not in the store. Then the returned refresh token is
  bound to a registered account \<open>acct\<close> with the given email, the refresh-token table
  afterwards is the old one without every record of that account's identifier, followed
  by the one new record; so every record \<open>t\<close> that existed for that identifier is
  absent, and a refresh with any raw value of \<open>t\<close>'s fingerprint fails with
  Unauthorized, "Invalid refresh token", after any run of requests that does not draw
  that fingerprint again.
\<close>

theorem register_invalidates_sessions:
  assumes ok: "db_ok d"
    and reg: "register l ev d dat g = (Inr tp, d1)"
    and fresh_hash: "\<not> has_hash d (hashToken l (randomBytes_hex ev))"
  shows "\<exists>acct new.
     findById d1 (user_id acct) = Some acct \<and> \<not> isGuest acct \<and> email acct = Some (reg_email dat) \<and>
     refreshToken_findUnique d1 (hashToken l (refreshToken tp)) = Some new \<and>
     userId new = user_id acct \<and>
     refreshToken_table d1 = filter (\<lambda>t. userId t \<noteq> user_id acct) (refreshToken_table d) @ [new] \<and>
     (\<forall>t \<in> set (refreshToken_table d). userId t = user_id acct \<longrightarrow>
        t \<notin> set (refreshToken_table d1) \<and>
        (\<forall>rt rs ev'. hashToken l rt = tokenHash t \<and>
             (\<forall>r \<in> set rs. minted_hash l r \<noteq> Some (tokenHash t)) \<longrightarrow>
           refreshTokens l ev' (run l d1 rs) rt =
             (Inl (UnauthorizedException ''Invalid refresh token''), run l d1 rs)))"
proof -
  let ?h = "hashToken l (randomBytes_hex ev)"
  obtain u d0 where
    gen: "generateTokens l ev (refreshToken_deleteMany_userId d0 (user_id u)) (user_id u) False = (Inr tp, d1)"
    and em: "email u = Some (reg_email dat)" and ng: "\<not> isGuest u"
    and uin: "u \<in> set (user_table d0)" and tok0: "refreshToken_table d0 = refreshToken_table d"
    and keeps: "db_ok d \<longrightarrow> db_ok d0"
    using register_Inr[OF reg] by blast
  let ?dM = "refreshToken_deleteMany_userId d0 (user_id u)"
  let ?kept = "filter (\<lambda>t. userId t \<noteq> user_id u) (refreshToken_table d)"
  let ?new = "minted_record l ev (user_id u)"
  have ok0: "db_ok d0"
    using keeps ok by simp
  have keptM: "refreshToken_table ?dM = ?kept"
    by (simp add: refreshToken_deleteMany_userId_def tok0)
  have usersM: "user_table ?dM = user_table d0"
    by (simp add: refreshToken_deleteMany_userId_def)
  from generateTokens_cases[OF gen]
  have rt: "refreshToken tp = randomBytes_hex ev"
    and nh: "\<not> has_hash ?dM ?h"
    and d1: "d1 = ?dM\<lparr>refreshToken_table := refreshToken_table ?dM @ [?new]\<rparr>"
    by auto
  have tab: "refreshToken_table d1 = ?kept @ [?new]"
    unfolding d1 using keptM by simp
  have users1: "user_table d1 = user_table d0"
    unfolding d1 using usersM by simp
  have acct: "findById d1 (user_id u) = Some u"
    using find_by_id[OF _ uin] ok0 users1 by (simp add: findById_def user_findUnique_id_def db_ok_def)
  have "find (\<lambda>t. tokenHash t = ?h) ?kept = None"
    using nh unfolding keptM has_hash_def find_None_conv by blast
  then have found: "refreshToken_findUnique d1 (hashToken l (refreshToken tp)) = Some ?new"
    unfolding refreshToken_findUnique_def tab rt find_append_last
    by (simp add: minted_record_def)
  have owner: "userId ?new = user_id u"
    by (simp add: minted_record_def)
  have old: "t \<notin> set (refreshToken_table d1) \<and>
        (\<forall>rt rs ev'. hashToken l rt = tokenHash t \<and>
             (\<forall>r \<in> set rs. minted_hash l r \<noteq> Some (tokenHash t)) \<longrightarrow>
           refreshTokens l ev' (run l d1 rs) rt =
             (Inl (UnauthorizedException ''Invalid refresh token''), run l d1 rs))"
    if t: "t \<in> set (refreshToken_table d)" "userId t = user_id u" for t
  proof -
    have ne: "tokenHash t \<noteq> ?h"
      using fresh_hash t(1) by (auto simp: has_hash_def)
    have inj: "inj_on tokenHash (set (refreshToken_table d))"
      using ok by (simp add: db_ok_def distinct_map)
    have same: "s = t" if "s \<in> set (refreshToken_table d)" "tokenHash s = tokenHash t" for s
      using that t(1) inj by (auto dest: inj_onD)
    have gone: "\<not> has_hash d1 (tokenHash t)"
    proof
      assume "has_hash d1 (tokenHash t)"
      then obtain s where s: "s \<in> set (?kept @ [?new])" "tokenHash s = tokenHash t"
        unfolding has_hash_def tab by blast
      then have "s \<in> set ?kept"
        using ne by (auto simp: minted_record_def)
      then have "s \<in> set (refreshToken_table d)" "userId s \<noteq> user_id u" by simp_all
      then show False using same[OF _ s(2)] t(2) by simp
    qed
    have absent: "t \<notin> set (refreshToken_table d1)"
      using gone by (auto simp: has_hash_def)
    have later: "refreshTokens l ev' (run l d1 rs) rt =
             (Inl (UnauthorizedException ''Invalid refresh token''), run l d1 rs)"
      if "hashToken l rt = tokenHash t" "\<forall>r \<in> set rs. minted_hash l r \<noteq> Some (tokenHash t)"
      for rt rs ev'
    proof -
      have "\<not> has_hash (run l d1 rs) (hashToken l rt)"
        unfolding that(1) using gone that(2) by (rule has_hash_run)
      then show ?thesis by (rule refresh_unknown)
    qed
    show ?thesis using absent later by blast
  qed
  show ?thesis
    using acct ng em found owner tab old by blast
qed

theorem register_invalidates_sessions_witness:
  "db_ok example_db \<and>
   register example_lib (example_env 5 ''2'') example_db register_example (Some ''u1'') =
     (Inr \<lparr>accessToken = ''R:u1'', refreshToken = ''r2''\<rparr>, upgraded_db) \<and>
   \<lparr>token_id = ''t1'', tokenHash = ''#r1'', userId = ''u1'', expiresAt = 604800000\<rparr>
     \<in> set (refreshToken_table example_db) \<and>
   \<lparr>token_id = ''t1'', tokenHash = ''#r1'', userId = ''u1'', expiresAt = 604800000\<rparr>
     \<notin> set (refreshToken_table upgraded_db) \<and>
   refreshTokens example_lib (example_env 6 ''3'') (run example_lib upgraded_db []) ''r1'' =
     (Inl (UnauthorizedException ''Invalid refresh token''), run example_lib upgraded_db [])"
proof -
  let ?old = "\<lparr>token_id = ''t1'', tokenHash = ''#r1'', userId = ''u1'', expiresAt = 604800000\<rparr>"
  have reg: "register example_lib (example_env 5 ''2'') example_db register_example (Some ''u1'') =
     (Inr \<lparr>accessToken = ''R:u1'', refreshToken = ''r2''\<rparr>, upgraded_db)"
    by (simp add: eval_defs ex_defs register_example_def upgraded_db_def)
  have fh: "\<not> has_hash example_db (hashToken example_lib (randomBytes_hex (example_env 5 ''2'')))"
    by (simp add: has_hash_def ex_defs)
  have mem: "?old \<in> set (refreshToken_table example_db)"
    by (simp add: example_db_def)
  obtain acct where
    a: "findById upgraded_db (user_id acct) = Some acct"
    and inv: "\<forall>t \<in> set (refreshToken_table example_db). userId t = user_id acct \<longrightarrow>
        t \<notin> set (refreshToken_table upgraded_db) \<and>
        (\<forall>rt rs ev'. hashToken example_lib rt = tokenHash t \<and>
             (\<forall>r \<in> set rs. minted_hash example_lib r \<noteq> Some (tokenHash t)) \<longrightarrow>
           refreshTokens example_lib ev' (run example_lib upgraded_db rs) rt =
             (Inl (UnauthorizedException ''Invalid refresh token''), run example_lib upgraded_db rs))"
    using register_invalidates_sessions[OF example_db_ok reg fh] by blast
  have "user_id acct = ''u1''"
    using a by (simp add: findById_def user_findUnique_id_def upgraded_db_def split: if_splits)
  then have own: "userId ?old = user_id acct" by simp
  have h: "hashToken example_lib ''r1'' = tokenHash ?old" by (simp add: ex_defs)
  from inv mem own have
    gone: "?old \<notin> set (refreshToken_table upgraded_db)" and
    later: "\<forall>rt rs ev'. hashToken example_lib rt = tokenHash ?old \<and>
             (\<forall>r \<in> set rs. minted_hash example_lib r \<noteq> Some (tokenHash ?old)) \<longrightarrow>
           refreshTokens example_lib ev' (run example_lib upgraded_db rs) rt =
             (Inl (UnauthorizedException ''Invalid refresh token''), run example_lib upgraded_db rs)"
    by blast+
  have "refreshTokens example_lib (example_env 6 ''3'') (run example_lib upgraded_db []) ''r1'' =
     (Inl (UnauthorizedException ''Invalid refresh token''), run example_lib upgraded_db [])"
    using later[rule_format, of "''r1''" "[]" "example_env 6 ''3''"] h by simp
  then show ?thesis
    using example_db_ok reg mem gone by blast
qed

section \<open>The account shape\<close>

















section \<open>Minting and the refresh that follows\<close>

lemma mint_shape:
  assumes gen: "generateTokens l ev dM uid g = (Inr tp, d1)"
    and kept: "refreshToken_table dM = kept"
  shows "refreshToken tp = randomBytes_hex ev \<and>
         refreshToken_table d1 = kept @ [minted_record l ev uid] \<and>
         user_table d1 = user_table dM \<and>
         (\<forall>t \<in> set kept. tokenHash t \<noteq> hashToken l (randomBytes_hex ev) \<and> token_id t \<noteq> uuid_token ev) \<and>
         (\<exists>u \<in> set (user_table d1). user_id u = uid)"
  using generateTokens_cases[OF gen] kept by (auto simp: has_hash_def)

lemma find_existing:
  "\<exists>u \<in> set us. user_id u = i \<Longrightarrow> \<exists>u. find (\<lambda>v. user_id v = i) us = Some u \<and> user_id u = i"
  by (induction us) auto

lemma refresh_after_mint:
  assumes tab: "refreshToken_table d1 = kept @ [new]"
    and others: "\<forall>t \<in> set kept. tokenHash t \<noteq> tokenHash new \<and> token_id t \<noteq> token_id new"
    and owner: "\<exists>u \<in> set (user_table d1). user_id u = userId new"
    and raw: "tokenHash new = hashToken l raw"
    and live: "new_date ev' \<le> expiresAt new"
    and fresh_hash: "\<not> has_hash d1 (hashToken l (randomBytes_hex ev'))"
    and fresh_id: "\<forall>t \<in> set (refreshToken_table d1). token_id t \<noteq> uuid_token ev'"
  shows "refreshToken_findUnique d1 (hashToken l raw) = Some new \<and>
         (\<exists>tp'. refreshToken tp' = randomBytes_hex ev' \<and>
            refreshTokens l ev' d1 raw =
              (Inr tp', d1\<lparr>refreshToken_table := kept @ [minted_record l ev' (userId new)]\<rparr>))"
proof -
  let ?d0 = "d1\<lparr>refreshToken_table := kept\<rparr>"
  have "find (\<lambda>t. tokenHash t = hashToken l raw) kept = None"
    using others raw unfolding find_None_conv by auto
  then have found: "refreshToken_findUnique d1 (hashToken l raw) = Some new"
    unfolding refreshToken_findUnique_def tab find_append_last using raw by simp
  have flt: "filter (\<lambda>t. token_id t \<noteq> token_id new) (kept @ [new]) = kept"
    using others by (auto simp: filter_id_conv)
  have del: "refreshToken_delete d1 (token_id new) = Inr ?d0"
    unfolding delete_stored[OF found] tab flt by simp
  obtain u where u: "user_findUnique_id d1 (userId new) = Some u" "user_id u = userId new"
    using find_existing[OF owner] by (auto simp: user_findUnique_id_def)
  have g1: "\<not> has_hash ?d0 (hashToken l (randomBytes_hex ev'))"
    using fresh_hash unfolding has_hash_def tab by auto
  have g2: "\<forall>t \<in> set (refreshToken_table ?d0). token_id t \<noteq> uuid_token ev'"
    using fresh_id unfolding tab by auto
  have g3: "\<exists>v \<in> set (user_table ?d0). user_id v = userId new"
    using owner by simp
  obtain tp' where tp': "refreshToken tp' = randomBytes_hex ev'"
     "generateTokens l ev' ?d0 (userId new) (isGuest u) =
       (Inr tp', ?d0\<lparr>refreshToken_table := refreshToken_table ?d0 @ [minted_record l ev' (userId new)]\<rparr>)"
    using generateTokens_succeeds[OF g1 g2 g3, of "isGuest u"] by blast
  have "refreshTokens l ev' d1 raw =
      (Inr tp', d1\<lparr>refreshToken_table := kept @ [minted_record l ev' (userId new)]\<rparr>)"
    using found live u tp' del by (simp add: refreshTokens_def Let_def)
  then show ?thesis using found tp'(1) by blast
qed

lemma createGuest_Inr:
  assumes "createGuest l ev d = (Inr tp, d1)"
  shows "\<exists>dM uid. generateTokens l ev dM uid True = (Inr tp, d1) \<and>
           refreshToken_table dM = refreshToken_table d"
proof -
  obtain r d0 where r: "users_createGuest ev d = (r, d0)" by (cases "users_createGuest ev d")
  have t: "refreshToken_table d0 = refreshToken_table d"
    using users_createGuest_tokens[of ev d] r by simp
  show ?thesis using assms r t by (cases r) (auto simp: createGuest_def)
qed

lemma login_Inr:
  assumes "login l ev d uid = (Inr tp, d1)"
  shows "\<exists>g. generateTokens l ev d uid g = (Inr tp, d1)"
proof -
  obtain u where u: "findById d uid = Some u" "generateTokens l ev d (user_id u) (isGuest u) = (Inr tp, d1)"
    using assms by (auto simp: login_def split: option.splits)
  have "user_id u = uid"
    using find_SomeD[OF u(1)[unfolded findById_def user_findUnique_id_def]] by simp
  then show ?thesis using u(2) by auto
qed

lemma refreshTokens_Inr:
  assumes "refreshTokens l ev d rt = (Inr tp, d1)"
  shows "\<exists>(stored :: refresh_token) uid g. generateTokens l ev
            (d\<lparr>refreshToken_table := filter (\<lambda>t. token_id t \<noteq> token_id stored) (refreshToken_table d)\<rparr>)
            uid g = (Inr tp, d1)"
proof (cases "refreshToken_findUnique d (hashToken l rt)")
  case None
  then show ?thesis using assms by (simp add: refreshTokens_def)
next
  case (Some stored)
  have del: "refreshToken_delete d (token_id stored) =
     Inr (d\<lparr>refreshToken_table := filter (\<lambda>t. token_id t \<noteq> token_id stored) (refreshToken_table d)\<rparr>)"
    by (rule delete_stored[OF Some])
  have "\<exists>uid gf. generateTokens l ev
            (d\<lparr>refreshToken_table := filter (\<lambda>t. token_id t \<noteq> token_id stored) (refreshToken_table d)\<rparr>)
            uid gf = (Inr tp, d1)"
    using assms Some del
    by (auto simp: refreshTokens_def Let_def split: option.splits if_splits)
  then show ?thesis by blast
qed

text \<open>
  C9 (mint and refresh round trip). Whenever createGuest, register, login or refresh
  returns a token pair, the refresh-token table afterwards consists of records kept from
  the table before (a filter of it) followed by exactly one added record \<open>new\<close>; the
  fingerprint stored in \<open>new\<close> is the SHA-256 hex digest of the returned raw refresh
  token, and no kept record has that fingerprint. A refresh with the returned raw value
  that comes next, not after the expiry of \<open>new\<close> (and drawing a token fingerprint and a
  row identifier which are not in the store), finds \<open>new\<close> and succeeds, replacing
  \<open>new\<close> by the record of the next pair.
\<close>

theorem mint_refresh_round_trip:
  assumes mint: "createGuest l ev d = (Inr tp, d1) \<or> register l ev d dat g = (Inr tp, d1) \<or>
                 login l ev d uid = (Inr tp, d1) \<or> refreshTokens l ev d rt = (Inr tp, d1)"
  shows "\<exists>kept new.
           refreshToken_table d1 = kept @ [new] \<and>
           (\<exists>P. kept = filter P (refreshToken_table d)) \<and>
           tokenHash new = sha256_hex l (refreshToken tp) \<and>
           (\<forall>t \<in> set kept. tokenHash t \<noteq> tokenHash new) \<and>
           (\<forall>ev'. new_date ev' \<le> expiresAt new \<and>
                  \<not> has_hash d1 (hashToken l (randomBytes_hex ev')) \<and>
                  (\<forall>t \<in> set (refreshToken_table d1). token_id t \<noteq> uuid_token ev') \<longrightarrow>
              refreshToken_findUnique d1 (hashToken l (refreshToken tp)) = Some new \<and>
              (\<exists>tp'. refreshToken tp' = randomBytes_hex ev' \<and>
                 refreshTokens l ev' d1 (refreshToken tp) =
                   (Inr tp', d1\<lparr>refreshToken_table := kept @ [minted_record l ev' (userId new)]\<rparr>)))"
proof -
  have "\<exists>dM u gf P. generateTokens l ev dM u gf = (Inr tp, d1) \<and>
          refreshToken_table dM = filter P (refreshToken_table d)"
    using mint
  proof (elim disjE)
    assume "createGuest l ev d = (Inr tp, d1)"
    from createGuest_Inr[OF this] obtain dM u where
      "generateTokens l ev dM u True = (Inr tp, d1)"
      "refreshToken_table dM = filter (\<lambda>t. True) (refreshToken_table d)" by auto
    then show ?thesis by blast
  next
    assume "register l ev d dat g = (Inr tp, d1)"
    from register_Inr[OF this] obtain u :: user and d0 where
      "generateTokens l ev (refreshToken_deleteMany_userId d0 (user_id u)) (user_id u) False = (Inr tp, d1)"
      "refreshToken_table d0 = refreshToken_table d" by blast
    moreover have "refreshToken_table (refreshToken_deleteMany_userId d0 (user_id u))
        = filter (\<lambda>t. userId t \<noteq> user_id u) (refreshToken_table d0)"
      by (simp add: refreshToken_deleteMany_userId_def)
    ultimately show ?thesis by metis
  next
    assume "login l ev d uid = (Inr tp, d1)"
    from login_Inr[OF this] obtain gf where "generateTokens l ev d uid gf = (Inr tp, d1)" by blast
    moreover have "refreshToken_table d = filter (\<lambda>t. True) (refreshToken_table d)" by simp
    ultimately show ?thesis by blast
  next
    assume "refreshTokens l ev d rt = (Inr tp, d1)"
    from refreshTokens_Inr[OF this] obtain stored :: refresh_token and u gf where
      "generateTokens l ev
            (d\<lparr>refreshToken_table := filter (\<lambda>t. token_id t \<noteq> token_id stored) (refreshToken_table d)\<rparr>)
            u gf = (Inr tp, d1)" by blast
    moreover have "refreshToken_table
        (d\<lparr>refreshToken_table := filter (\<lambda>t. token_id t \<noteq> token_id stored) (refreshToken_table d)\<rparr>)
        = filter (\<lambda>t. token_id t \<noteq> token_id stored) (refreshToken_table d)" by simp
    ultimately show ?thesis by blast
  qed
  then obtain dM u gf P where gen: "generateTokens l ev dM u gf = (Inr tp, d1)"
    and sub: "refreshToken_table dM = filter P (refreshToken_table d)" by blast
  have sub': "\<exists>P. refreshToken_table dM = filter P (refreshToken_table d)" using sub by blast
  let ?kept = "refreshToken_table dM"
  let ?new = "minted_record l ev u"
  from mint_shape[OF gen refl]
  have rt: "refreshToken tp = randomBytes_hex ev"
    and tab: "refreshToken_table d1 = ?kept @ [?new]"
    and others: "\<forall>t \<in> set ?kept. tokenHash t \<noteq> hashToken l (randomBytes_hex ev) \<and> token_id t \<noteq> uuid_token ev"
    and owner: "\<exists>v \<in> set (user_table d1). user_id v = u"
    by blast+
  have h: "tokenHash ?new = sha256_hex l (refreshToken tp)"
    by (simp add: minted_record_def hashToken_def rt)
  have raw: "tokenHash ?new = hashToken l (refreshToken tp)"
    by (simp add: minted_record_def rt)
  have others': "\<forall>t \<in> set ?kept. tokenHash t \<noteq> tokenHash ?new \<and> token_id t \<noteq> token_id ?new"
    using others by (simp add: minted_record_def)
  have owner': "\<exists>v \<in> set (user_table d1). user_id v = userId ?new"
    using owner by (simp add: minted_record_def)
  have again: "refreshToken_findUnique d1 (hashToken l (refreshToken tp)) = Some ?new \<and>
         (\<exists>tp'. refreshToken tp' = randomBytes_hex ev' \<and>
            refreshTokens l ev' d1 (refreshToken tp) =
              (Inr tp', d1\<lparr>refreshToken_table := ?kept @ [minted_record l ev' (userId ?new)]\<rparr>))"
    if "new_date ev' \<le> expiresAt ?new" "\<not> has_hash d1 (hashToken l (randomBytes_hex ev'))"
       "\<forall>t \<in> set (refreshToken_table d1). token_id t \<noteq> uuid_token ev'" for ev'
    by (rule refresh_after_mint[OF tab others' owner' raw that])
  have o2: "\<forall>t \<in> set ?kept. tokenHash t \<noteq> tokenHash ?new" using others' by blast
  show ?thesis
    using tab sub' h o2 again by blast
qed

theorem mint_refresh_round_trip_witness:
  "login example_lib (example_env 5 ''2'') example_db ''u1'' =
     (Inr \<lparr>accessToken = ''G:u1'', refreshToken = ''r2''\<rparr>, logged_in_db) \<and>
   refreshToken_findUnique logged_in_db (hashToken example_lib ''r2'') =
     Some \<lparr>token_id = ''t2'', tokenHash = ''#r2'', userId = ''u1'', expiresAt = 604800005\<rparr> \<and>
   refreshTokens example_lib (example_env 6 ''3'') logged_in_db ''r2'' =
     (Inr \<lparr>accessToken = ''G:u1'', refreshToken = ''r3''\<rparr>,
      example_db\<lparr>refreshToken_table :=
        [\<lparr>token_id = ''t1'', tokenHash = ''#r1'', userId = ''u1'', expiresAt = 604800000\<rparr>,
         \<lparr>token_id = ''t3'', tokenHash = ''#r3'', userId = ''u1'', expiresAt = 604800006\<rparr>]\<rparr>)"
proof -
  let ?tp = "\<lparr>accessToken = ''G:u1'', refreshToken = ''r2''\<rparr>"
  let ?ev' = "example_env 6 ''3''"
  have mint: "login example_lib (example_env 5 ''2'') example_db ''u1'' = (Inr ?tp, logged_in_db)"
    by (simp add: eval_defs ex_defs logged_in_db_def)
  then have m: "createGuest example_lib (example_env 5 ''2'') example_db = (Inr ?tp, logged_in_db) \<or>
      register example_lib (example_env 5 ''2'') example_db register_example None = (Inr ?tp, logged_in_db) \<or>
      login example_lib (example_env 5 ''2'') example_db ''u1'' = (Inr ?tp, logged_in_db) \<or>
      refreshTokens example_lib (example_env 5 ''2'') example_db ''r0'' = (Inr ?tp, logged_in_db)"
    by blast
  obtain kept new where
    tab: "refreshToken_table logged_in_db = kept @ [new]"
    and again: "\<forall>ev'. new_date ev' \<le> expiresAt new \<and>
                  \<not> has_hash logged_in_db (hashToken example_lib (randomBytes_hex ev')) \<and>
                  (\<forall>t \<in> set (refreshToken_table logged_in_db). token_id t \<noteq> uuid_token ev') \<longrightarrow>
              refreshToken_findUnique logged_in_db (hashToken example_lib (refreshToken ?tp)) = Some new \<and>
              (\<exists>tp'. refreshToken tp' = randomBytes_hex ev' \<and>
                 refreshTokens example_lib ev' logged_in_db (refreshToken ?tp) =
                   (Inr tp', logged_in_db\<lparr>refreshToken_table :=
                      kept @ [minted_record example_lib ev' (userId new)]\<rparr>))"
    using mint_refresh_round_trip[OF m] by blast
  have "last (refreshToken_table logged_in_db) = new"
    unfolding tab by simp
  then have new: "new = \<lparr>token_id = ''t2'', tokenHash = ''#r2'', userId = ''u1'', expiresAt = 604800005\<rparr>"
    by (simp add: logged_in_db_def)
  have hyps: "new_date ?ev' \<le> expiresAt new \<and>
      \<not> has_hash logged_in_db (hashToken example_lib (randomBytes_hex ?ev')) \<and>
      (\<forall>t \<in> set (refreshToken_table logged_in_db). token_id t \<noteq> uuid_token ?ev')"
    unfolding new by (simp add: has_hash_def ex_defs logged_in_db_def)
  have found: "refreshToken_findUnique logged_in_db (hashToken example_lib ''r2'') = Some new"
    using again[rule_format, OF hyps] by simp
  have second: "refreshTokens example_lib ?ev' logged_in_db ''r2'' =
     (Inr \<lparr>accessToken = ''G:u1'', refreshToken = ''r3''\<rparr>,
      example_db\<lparr>refreshToken_table :=
        [\<lparr>token_id = ''t1'', tokenHash = ''#r1'', userId = ''u1'', expiresAt = 604800000\<rparr>,
         \<lparr>token_id = ''t3'', tokenHash = ''#r3'', userId = ''u1'', expiresAt = 604800006\<rparr>]\<rparr>)"
    by (simp add: eval_defs ex_defs logged_in_db_def)
  show ?thesis using mint found second unfolding new by simp
qed

section \<open>Registration: what the core checks\<close>

text \<open>
  C6, as amended. The core's register operation hashes the password and never looks at
  its length. A register call with a password shorter than 8 characters whose guest
  identifier resolves to a guest account, with an email no account holds and a freshly
  drawn refresh token, is not rejected: it upgrades the account in place, storing the
  hash of the short password, deletes the account's old refresh-token records and
  persists the record of the new pair.
\<close>

theorem register_accepts_short_password:
  assumes short: "length (reg_password dat) < 8"
    and g: "g \<noteq> []"
    and f: "findById d g = Some u"
    and gu: "isGuest u"
    and e: "findByEmail d (reg_email dat) = None"
    and h: "\<not> has_hash d (hashToken l (randomBytes_hex ev))"
    and t: "\<forall>t \<in> set (refreshToken_table d). token_id t \<noteq> uuid_token ev"
  shows "register l ev d dat (Some g) =
     (Inr \<lparr>accessToken = access_token_for l ev g False, refreshToken = randomBytes_hex ev\<rparr>,
      d\<lparr>user_table := map (\<lambda>v. if user_id v = g then upgraded_account l ev dat u else v)
                          (user_table d),
        refreshToken_table := filter (\<lambda>t. userId t \<noteq> g) (refreshToken_table d)
                              @ [minted_record l ev g]\<rparr>)"
proof -
  let ?ph = "bcrypt_hash l (reg_password dat) 10 (salt ev)"
  let ?u = "upgraded_account l ev dat u"
  let ?d0 = "d\<lparr>user_table := map (\<lambda>v. if user_id v = g then ?u else v) (user_table d)\<rparr>"
  let ?dM = "refreshToken_deleteMany_userId ?d0 g"
  have f': "find (\<lambda>v. user_id v = g) (user_table d) = Some u"
    using f by (simp add: findById_def user_findUnique_id_def)
  have uin: "u \<in> set (user_table d)" and uid: "user_id u = g"
    using find_SomeD[OF f'] by simp_all
  have e': "find (\<lambda>v. email v = Some (reg_email dat)) (user_table d) = None"
    using e by (simp add: findByEmail_def user_findUnique_email_def)
  then have e'': "find (\<lambda>v. email v = Some (reg_email dat) \<and> user_id v \<noteq> g) (user_table d) = None"
    unfolding find_None_conv by blast
  have up: "upgradeGuest d g (reg_email dat) ?ph (reg_displayName dat) = (Inr ?u, ?d0)"
    using f' gu e' e''
    by (simp add: upgradeGuest_def user_update_def user_findUnique_id_def user_findUnique_email_def
        upgraded_account_def Let_def)
  have uid': "user_id ?u = g"
    by (simp add: upgraded_account_def uid)
  have g1: "\<not> has_hash ?dM (hashToken l (randomBytes_hex ev))"
    using h by (auto simp: has_hash_def refreshToken_deleteMany_userId_def)
  have g2: "\<forall>t \<in> set (refreshToken_table ?dM). token_id t \<noteq> uuid_token ev"
    using t by (simp add: refreshToken_deleteMany_userId_def)
  have "(\<lambda>v. if user_id v = g then ?u else v) u \<in> (\<lambda>v. if user_id v = g then ?u else v) ` set (user_table d)"
    using uin by (rule imageI)
  then have "?u \<in> set (user_table ?dM)"
    using uid by (simp add: refreshToken_deleteMany_userId_def)
  then have g3: "\<exists>v \<in> set (user_table ?dM). user_id v = g"
    using uid' by blast
  obtain tp where tp: "refreshToken tp = randomBytes_hex ev"
    "generateTokens l ev ?dM g False =
       (Inr tp, ?dM\<lparr>refreshToken_table := refreshToken_table ?dM @ [minted_record l ev g]\<rparr>)"
    using generateTokens_succeeds[OF g1 g2 g3, of False] by blast
  have acc: "accessToken tp = access_token_for l ev g False"
    using tp(2) by (auto simp: generateTokens_def Let_def access_token_for_def split: sum.splits)
  have tpeq: "tp = \<lparr>accessToken = access_token_for l ev g False, refreshToken = randomBytes_hex ev\<rparr>"
    using tp(1) acc by simp
  show ?thesis
    unfolding register_unfold using g up tp(2) uid'
    by (simp add: tpeq refreshToken_deleteMany_userId_def)
qed

theorem register_accepts_short_password_witness:
  "length (reg_password short_password_example) < 8 \<and>
   findById example_db ''u1'' =
     Some \<lparr>user_id = ''u1'', email = None, passwordHash = None, displayName = None,
           inviteCode = ''AAAAAA'', isGuest = True\<rparr> \<and>
   register example_lib (example_env 5 ''2'') example_db short_password_example (Some ''u1'') =
     (Inr \<lparr>accessToken = ''R:u1'', refreshToken = ''r2''\<rparr>,
      example_db\<lparr>user_table := [\<lparr>user_id = ''u1'', email = Some ''a@b.com'',
                       passwordHash = Some ''$s1$short'', displayName = None,
                       inviteCode = ''AAAAAA'', isGuest = False\<rparr>],
       refreshToken_table := [\<lparr>token_id = ''t2'', tokenHash = ''#r2'', userId = ''u1'',
                               expiresAt = 604800005\<rparr>]\<rparr>)"
proof -
  let ?ev = "example_env 5 ''2''"
  let ?u = "\<lparr>user_id = ''u1'', email = None, passwordHash = None, displayName = None,
           inviteCode = ''AAAAAA'', isGuest = True\<rparr>"
  have short: "length (reg_password short_password_example) < 8"
    by (simp add: short_password_example_def)
  have g: "''u1'' \<noteq> []" by simp
  have f: "findById example_db ''u1'' = Some ?u"
    by (simp add: findById_def user_findUnique_id_def example_db_def)
  have gu: "isGuest ?u" by simp
  have e: "findByEmail example_db (reg_email short_password_example) = None"
    by (simp add: findByEmail_def user_findUnique_email_def example_db_def)
  have h: "\<not> has_hash example_db (hashToken example_lib (randomBytes_hex ?ev))"
    by (simp add: has_hash_def ex_defs)
  have t: "\<forall>t \<in> set (refreshToken_table example_db). token_id t \<noteq> uuid_token ?ev"
    by (simp add: ex_defs)
  have vals: "access_token_for example_lib ?ev ''u1'' False = ''R:u1''"
    "randomBytes_hex ?ev = ''r2''"
    "map (\<lambda>v. if user_id v = ''u1'' then upgraded_account example_lib ?ev short_password_example ?u else v)
       (user_table example_db) =
       [\<lparr>user_id = ''u1'', email = Some ''a@b.com'',
                       passwordHash = Some ''$s1$short'', displayName = None,
                       inviteCode = ''AAAAAA'', isGuest = False\<rparr>]"
    "filter (\<lambda>t. userId t \<noteq> ''u1'') (refreshToken_table example_db) @
       [minted_record example_lib ?ev ''u1''] =
       [\<lparr>token_id = ''t2'', tokenHash = ''#r2'', userId = ''u1'', expiresAt = 604800005\<rparr>]"
    by (simp_all add: access_token_for_def upgraded_account_def minted_record_def getExpiresSec_def
        ex_defs short_password_example_def)
  show ?thesis
    using register_accepts_short_password[OF short g f gu e h t] short f
    unfolding vals by simp
qed

text \<open>
  The claim as stated (the core rejects a password shorter than 8 characters and creates
  no token records) fails: with the 5-character password \<open>short\<close>, register on the guest
  \<open>u1\<close> returns a token pair, stores the hash of \<open>short\<close> in the account and persists a
  refresh-token record.
\<close>

theorem core_password_defense_counterexample:
  "length (reg_password short_password_example) < 8 \<and>
   register example_lib (example_env 5 ''2'') example_db short_password_example (Some ''u1'') =
     (Inr \<lparr>accessToken = ''R:u1'', refreshToken = ''r2''\<rparr>,
      \<lparr>user_table = [\<lparr>user_id = ''u1'', email = Some ''a@b.com'',
                       passwordHash = Some ''$s1$short'', displayName = None,
                       inviteCode = ''AAAAAA'', isGuest = False\<rparr>],
       refreshToken_table = [\<lparr>token_id = ''t2'', tokenHash = ''#r2'', userId = ''u1'',
                               expiresAt = 604800005\<rparr>]\<rparr>)"
  by (simp add: eval_defs ex_defs short_password_example_def)

text \<open>
  C5, as amended. A register call whose guest identifier resolves to no account does
  not fall back to a fresh registration: when the identifier is a non-empty string,
  \<open>upgradeGuest\<close> raises BadRequest, "User is not a guest", and the store is unchanged.
  Only an empty identifier is treated as none (\<open>if (guestUserId)\<close>) and behaves exactly
  like a call without it.
\<close>

theorem register_unresolved_guest_id:
  assumes "findById d g = None"
  shows "register l ev d dat (Some g) =
           (if g = [] then register l ev d dat None
            else (Inl (BadRequestException ''User is not a guest''), d))"
  using assms unfolding register_unfold
  by (simp add: upgradeGuest_def findById_def)

theorem register_unresolved_guest_id_witness:
  "findById example_db ''ghost'' = None \<and>
   register example_lib (example_env 5 ''2'') example_db register_example (Some ''ghost'') =
     (Inl (BadRequestException ''User is not a guest''), example_db)"
proof -
  have n: "findById example_db ''ghost'' = None"
    by (simp add: findById_def user_findUnique_id_def example_db_def)
  show ?thesis
    using register_unresolved_guest_id[OF n, of example_lib "example_env 5 ''2''" register_example] n
    by simp
qed

text \<open>
  The claim as stated (an unresolved guest identifier gives a brand-new account, as if no
  identifier had been supplied) fails: on the empty store, register with the guest
  identifier \<open>ghost\<close> fails with BadRequest and creates nothing, which is also not what
  the same call without identifier returns.
\<close>

theorem unresolved_guest_id_counterexample:
  "findById empty_db ''ghost'' = None \<and>
   register example_lib (example_env 0 ''1'') empty_db register_example (Some ''ghost'') =
     (Inl (BadRequestException ''User is not a guest''), empty_db) \<and>
   register example_lib (example_env 0 ''1'') empty_db register_example (Some ''ghost'') \<noteq>
     register example_lib (example_env 0 ''1'') empty_db register_example None"
  by (simp add: eval_defs ex_defs empty_db_def register_example_def)

section \<open>Registration without a guest identifier\<close>

lemma register_without_guest:
  "register l ev d dat None =
     (case findByEmail d (reg_email dat) of
        Some existing \<Rightarrow> (Inl (ConflictException ''Email already in use''), d)
      | None \<Rightarrow> (Inl (PrismaError ''P2011''), d))"
  unfolding register_unfold
  by (simp add: createRegistered_refused findByEmail_def split: option.splits)

text \<open>
  C7 (email uniqueness), evaluated on the code. A register call without guest identifier
  answers Conflict, "Email already in use", when an account holds the email. When no
  account holds it, the insert of \<open>createRegistered\<close> supplies no invite code and is
  refused: the call fails with the store's error and writes nothing, so the email is
  still free, and a second register call with the same email fails in the same way, not
  with Conflict.
\<close>

theorem second_register_is_not_conflict:
  assumes free: "findByEmail d (reg_email dat1) = None"
    and same: "reg_email dat2 = reg_email dat1"
  shows "register l ev1 d dat1 None = (Inl (PrismaError ''P2011''), d) \<and>
         register l ev2 d dat2 None = (Inl (PrismaError ''P2011''), d) \<and>
         register l ev2 d dat2 None \<noteq> (Inl (ConflictException ''Email already in use''), d)"
  using free same by (simp add: register_without_guest)

theorem second_register_is_not_conflict_witness:
  "findByEmail empty_db ''a@b.com'' = None \<and>
   register example_lib (example_env 0 ''1'') empty_db register_example None =
     (Inl (PrismaError ''P2011''), empty_db) \<and>
   register example_lib (example_env 1 ''2'') empty_db
       (register_example\<lparr>reg_password := ''another-password''\<rparr>) None =
     (Inl (PrismaError ''P2011''), empty_db)"
proof -
  have free: "findByEmail empty_db (reg_email register_example) = None"
    by (simp add: findByEmail_def user_findUnique_email_def empty_db_def)
  have same: "reg_email (register_example\<lparr>reg_password := ''another-password''\<rparr>) = reg_email register_example"
    by simp
  have e: "reg_email register_example = ''a@b.com''"
    by (simp add: register_example_def)
  show ?thesis
    using second_register_is_not_conflict[OF free same, of example_lib "example_env 0 ''1''"
        "example_env 1 ''2''"] free
    unfolding e by simp
qed

section \<open>Access-token verification\<close>

text \<open>
  C4, as amended. The get-current-identity operation consults the Identity Store and
  nothing else of the persistent state: after the signature and expiry check it looks the
  account up by the token's subject, answers Unauthorized, "User not found", when there is
  none, and otherwise returns the identifier, email and guest flag as stored. So two
  stores that agree on the account with the token's subject give the same result, and
  the refresh-token table never matters.
\<close>

theorem verification_consults_only_the_account:
  assumes "\<forall>p. jwt_verify l token (config_get l ''JWT_ACCESS_SECRET'') now = Some p \<longrightarrow>
               findById d1 (sub p) = findById d2 (sub p)"
  shows "jwt_authenticate l now d1 token = jwt_authenticate l now d2 token \<and>
         jwt_authenticate l now (d1\<lparr>refreshToken_table := ts\<rparr>) token = jwt_authenticate l now d1 token \<and>
         (\<forall>p. jwt_verify l token (config_get l ''JWT_ACCESS_SECRET'') now = Some p \<longrightarrow>
            jwt_authenticate l now d1 token =
              (case findById d1 (sub p) of
                 None \<Rightarrow> Inl (UnauthorizedException ''User not found'')
               | Some u \<Rightarrow> Inr \<lparr>ru_id = user_id u, ru_email = email u, ru_isGuest = isGuest u\<rparr>))"
  using assms
  by (auto simp: jwt_authenticate_def validate_def findById_def user_findUnique_id_def
      split: option.splits)

theorem verification_consults_only_the_account_witness:
  "jwt_authenticate example_lib 0 example_db ''R:u1'' =
     jwt_authenticate example_lib 0 (example_db\<lparr>refreshToken_table := []\<rparr>) ''R:u1'' \<and>
   jwt_authenticate example_lib 0 example_db ''R:u1'' =
     Inr \<lparr>ru_id = ''u1'', ru_email = None, ru_isGuest = True\<rparr>"
proof -
  have a: "\<forall>p. jwt_verify example_lib ''R:u1'' (config_get example_lib ''JWT_ACCESS_SECRET'') 0 = Some p \<longrightarrow>
               findById example_db (sub p) = findById (example_db\<lparr>refreshToken_table := []\<rparr>) (sub p)"
    by (simp add: findById_def user_findUnique_id_def)
  have v: "jwt_verify example_lib ''R:u1'' (config_get example_lib ''JWT_ACCESS_SECRET'') 0
      = Some \<lparr>sub = ''u1'', claim_isGuest = False\<rparr>"
    by (simp add: example_lib_def)
  have f: "findById example_db ''u1'' = Some \<lparr>user_id = ''u1'', email = None, passwordHash = None,
      displayName = None, inviteCode = ''AAAAAA'', isGuest = True\<rparr>"
    by (simp add: findById_def user_findUnique_id_def example_db_def)
  note th = verification_consults_only_the_account[OF a, of "[]"]
  have "jwt_authenticate example_lib 0 example_db ''R:u1'' =
     Inr \<lparr>ru_id = ''u1'', ru_email = None, ru_isGuest = True\<rparr>"
    using th[THEN conjunct2, THEN conjunct2, rule_format, OF v] f by simp
  then show ?thesis using th[THEN conjunct1] by blast
qed

text \<open>
  The claim as stated (the same token gives the same result in any two states of the
  stores) fails: \<open>validate\<close> succeeds for the subject \<open>u1\<close> in a store that holds that
  account and fails in the empty store, and so does the whole operation on a token that
  verifies to that subject.
\<close>

theorem verification_is_stateless_counterexample:
  "validate example_db \<lparr>sub = ''u1'', claim_isGuest = True\<rparr> \<noteq>
     validate empty_db \<lparr>sub = ''u1'', claim_isGuest = True\<rparr> \<and>
   jwt_authenticate example_lib 0 example_db ''G:u1'' \<noteq> jwt_authenticate example_lib 0 empty_db ''G:u1''"
  by (simp add: jwt_authenticate_def validate_def findById_def user_findUnique_id_def
      example_db_def empty_db_def example_lib_def)

section \<open>The register boundary\<close>

lemma extractGuestUserId_None:
  assumes "authHeader = None \<or>
     (\<exists>h. authHeader = Some h \<and>
        (\<not> startsWith h ''Bearer '' \<or>
         (\<forall>token. js_index (split_on CHR '' '' h) 1 = Some token \<longrightarrow>
            (case jwt_verify l token (config_get l ''JWT_ACCESS_SECRET'') (date_now ev) of
               None \<Rightarrow> True
             | Some payload \<Rightarrow> \<not> claim_isGuest payload))))"
  shows "extractGuestUserId l ev authHeader = None"
  using assms
  by (auto simp: extractGuestUserId_def split: option.splits)

text \<open>
  C10 (token tolerance at the register boundary), evaluated on the code. Let the
  Authorization header be missing, or not start with \<open>Bearer \<close>, or carry a token that
  \<open>verify\<close> rejects (malformed, wrong signature, expired) or that verifies to a payload
  which is not a guest's. Then \<open>extractGuestUserId\<close> yields no identifier and the
  register handler returns what it returns without any header. But that is not a fresh
  registered account: with an email no account holds, the insert of \<open>createRegistered\<close>
  supplies no invite code and is refused, so the request fails with the store's error
  and the store is unchanged.
\<close>

theorem register_with_unusable_token_creates_nothing:
  assumes unusable: "authHeader = None \<or>
     (\<exists>h. authHeader = Some h \<and>
        (\<not> startsWith h ''Bearer '' \<or>
         (\<forall>token. js_index (split_on CHR '' '' h) 1 = Some token \<longrightarrow>
            (case jwt_verify l token (config_get l ''JWT_ACCESS_SECRET'') (date_now ev) of
               None \<Rightarrow> True
             | Some payload \<Rightarrow> \<not> claim_isGuest payload))))"
    and free: "findByEmail d (reg_email dto) = None"
  shows "extractGuestUserId l ev authHeader = None \<and>
         controller_register l ev d dto authHeader = controller_register l ev d dto None \<and>
         controller_register l ev d dto authHeader = (Inl (PrismaError ''P2011''), d)"
proof -
  have none: "extractGuestUserId l ev authHeader = None"
    using unusable by (rule extractGuestUserId_None)
  have none': "extractGuestUserId l ev None = None"
    by (simp add: extractGuestUserId_def)
  have same: "controller_register l ev d dto authHeader = controller_register l ev d dto None"
    by (simp add: controller_register_def none none')
  have "controller_register l ev d dto authHeader = (Inl (PrismaError ''P2011''), d)"
    using free by (simp add: controller_register_def none register_without_guest)
  then show ?thesis using none same by blast
qed

theorem register_with_unusable_token_creates_nothing_witness:
  "extractGuestUserId example_lib (example_env 5 ''2'') (Some ''Bearer garbage'') = None \<and>
   findByEmail example_db ''a@b.com'' = None \<and>
   controller_register example_lib (example_env 5 ''2'') example_db register_example
       (Some ''Bearer garbage'') =
     (Inl (PrismaError ''P2011''), example_db)"
proof -
  let ?ev = "example_env 5 ''2''"
  have sp: "split_on CHR '' '' ''Bearer garbage'' = [''Bearer'', ''garbage'']"
    by simp
  have u: "Some ''Bearer garbage'' = None \<or>
     (\<exists>h. Some ''Bearer garbage'' = Some h \<and>
        (\<not> startsWith h ''Bearer '' \<or>
         (\<forall>token. js_index (split_on CHR '' '' h) 1 = Some token \<longrightarrow>
            (case jwt_verify example_lib token (config_get example_lib ''JWT_ACCESS_SECRET'') (date_now ?ev) of
               None \<Rightarrow> True
             | Some payload \<Rightarrow> \<not> claim_isGuest payload))))"
    by (simp add: sp js_index_def example_lib_def)
  have free: "findByEmail example_db (reg_email register_example) = None"
    by (simp add: findByEmail_def user_findUnique_email_def example_db_def)
  have e: "reg_email register_example = ''a@b.com''"
    by (simp add: register_example_def)
  show ?thesis
    using register_with_unusable_token_creates_nothing[OF u free] free
    unfolding e by blast
qed

end
